theory Spec2Isabelle
  imports Main "HOL-Library.Sublist"
begin

section \<open>JavaScript strings\<close>

text \<open>
  A JavaScript string is a sequence of UTF-16 code units. A code unit is modelled as a
  natural number (every real string only holds numbers below 65536), so that the fixed
  Chinese messages of the checks and the whole white-space set of \<open>String.prototype.trim\<close>
  can be written down. \<open>lit\<close> turns an ASCII literal into its code units.
\<close>

type_synonym jstring = "nat list"

definition lit :: "string \<Rightarrow> jstring" where
  "lit s = map of_char s"

text \<open>ECMAScript \<open>WhiteSpace\<close> and \<open>LineTerminator\<close>: what \<open>trim\<close> strips.\<close>

definition is_js_space :: "nat \<Rightarrow> bool" where
  "is_js_space c \<longleftrightarrow>
     c = 9 \<or> c = 10 \<or> c = 11 \<or> c = 12 \<or> c = 13 \<or> c = 32 \<or> c = 160 \<or> c = 5760 \<or>
     (8192 \<le> c \<and> c \<le> 8202) \<or> c = 8232 \<or> c = 8233 \<or> c = 8239 \<or> c = 8287 \<or>
     c = 12288 \<or> c = 65279"

text \<open>ECMAScript \<open>LineTerminator\<close>: what the pattern character \<open>.\<close> refuses.\<close>

definition is_line_terminator :: "nat \<Rightarrow> bool" where
  "is_line_terminator c \<longleftrightarrow> c = 10 \<or> c = 13 \<or> c = 8232 \<or> c = 8233"

definition trim_end :: "jstring \<Rightarrow> jstring" where
  "trim_end s = rev (dropWhile is_js_space (rev s))"

definition trim :: "jstring \<Rightarrow> jstring" where
  "trim s = trim_end (dropWhile is_js_space s)"

text \<open>\<open>s.includes(sub)\<close>.\<close>

fun js_includes :: "jstring \<Rightarrow> jstring \<Rightarrow> bool" where
  "js_includes [] sub = (sub = [])"
| "js_includes (c # cs) sub = (prefix sub (c # cs) \<or> js_includes cs sub)"

text \<open>\<open>s.endsWith(sub)\<close> is \<open>suffix sub s\<close>; \<open>s.startsWith(sub)\<close> is \<open>prefix sub s\<close>.\<close>

text \<open>\<open>s.split(sep)\<close> for a one-unit separator: every piece, in order.\<close>

fun split_on :: "nat \<Rightarrow> jstring \<Rightarrow> jstring list" where
  "split_on sep [] = [[]]"
| "split_on sep (c # cs) =
     (if c = sep then [] # split_on sep cs
      else (case split_on sep cs of
              [] \<Rightarrow> [[c]]
            | p # ps \<Rightarrow> (c # p) # ps))"

text \<open>\<open>s.split(/\r?\n/)\<close>: a line ends at LF or at CR LF.\<close>

fun split_lines :: "jstring \<Rightarrow> jstring list" where
  "split_lines [] = [[]]"
| "split_lines (c # cs) =
     (if c = 10 then [] # split_lines cs
      else if c = 13 \<and> (case cs of [] \<Rightarrow> False | d # _ \<Rightarrow> d = 10)
        then [] # split_lines (tl cs)
      else (case split_lines cs of
              [] \<Rightarrow> [[c]]
            | p # ps \<Rightarrow> (c # p) # ps))"

text \<open>\<open>s.replace(/\/+$/, "")\<close>: the trailing slashes go.\<close>

definition strip_trailing_slashes :: "jstring \<Rightarrow> jstring" where
  "strip_trailing_slashes s = rev (dropWhile (\<lambda>c. c = 47) (rev s))"

text \<open>\<open>s.replace(/\r$/, "")\<close>: one trailing CR goes.\<close>

definition strip_cr :: "jstring \<Rightarrow> jstring" where
  "strip_cr s = (if s \<noteq> [] \<and> last s = 13 then butlast s else s)"

text \<open>\<open>s.replace(pat, rep)\<close> with a string pattern: the first occurrence only.\<close>

fun replace_first :: "jstring \<Rightarrow> jstring \<Rightarrow> jstring \<Rightarrow> jstring" where
  "replace_first pat rep [] = (if pat = [] then rep else [])"
| "replace_first pat rep (c # cs) =
     (if prefix pat (c # cs) then rep @ drop (length pat) (c # cs)
      else c # replace_first pat rep cs)"

text \<open>\<open>xs.join(sep)\<close>.\<close>

fun join :: "jstring \<Rightarrow> jstring list \<Rightarrow> jstring" where
  "join sep [] = []"
| "join sep [x] = x"
| "join sep (x # y # ys) = x @ sep @ join sep (y # ys)"

text \<open>
  \<open>String(n)\<close> for an integral number: the decimal digits, with a minus sign. (Numbers
  of magnitude \<open>10^21\<close> and more print in exponent form; differences of clock readings
  in milliseconds stay far below.)
\<close>

fun dec_nat :: "nat \<Rightarrow> jstring" where
  "dec_nat n = (if n < 10 then [48 + n] else dec_nat (n div 10) @ [48 + n mod 10])"

declare dec_nat.simps [simp del]

definition js_int_to_string :: "int \<Rightarrow> jstring" where
  "js_int_to_string i = (if i < 0 then 45 # dec_nat (nat (- i)) else dec_nat (nat i))"

text \<open>
  Reading a decimal numeral back: an optional minus sign, then digits only, taken as a
  number in base ten. This is not a function of the source; it says what it means for a
  string to state a number.
\<close>

definition is_digit :: "nat \<Rightarrow> bool" where
  "is_digit c \<longleftrightarrow> 48 \<le> c \<and> c \<le> 57"

definition digits_value :: "jstring \<Rightarrow> nat" where
  "digits_value ds = foldl (\<lambda>acc c. 10 * acc + (c - 48)) 0 ds"

definition read_decimal :: "jstring \<Rightarrow> int option" where
  "read_decimal s =
     (case s of
        [] \<Rightarrow> None
      | c # cs \<Rightarrow>
          if c = 45
          then (if cs \<noteq> [] \<and> list_all is_digit cs then Some (- int (digits_value cs))
                else None)
          else (if list_all is_digit s then Some (int (digits_value s)) else None))"

section \<open>Gemini stream fragments\<close>

text \<open>
  \<open>mergeStreamText(previous: string | null, next: string)\<close>, the same in both revisions
  of \<open>gemini-native.ts\<close>. \<open>!previous\<close> holds for \<open>null\<close> and for the empty string.
\<close>

definition mergeStreamText :: "jstring option \<Rightarrow> jstring \<Rightarrow> jstring" where
  "mergeStreamText previous next =
     (case previous of
        None \<Rightarrow> next
      | Some p \<Rightarrow>
          if p = [] then next
          else if prefix p next then next
          else if prefix next p then p
          else p @ next)"

subsection \<open>JSON values and text extraction\<close>

text \<open>
  What \<open>JSON.parse\<close> returns. Numbers are kept abstract (\<open>'n\<close>); \<open>String(value)\<close> of a
  number is the platform's rendering, passed in as \<open>numstr\<close>. An object is the list of
  its own properties.
\<close>

datatype 'n json =
    JNull
  | JBool bool
  | JNum 'n
  | JStr jstring
  | JArr "'n json list"
  | JObj "(jstring \<times> 'n json) list"

text \<open>\<open>v?.key\<close>: only an object has the properties read here; anything else gives \<open>undefined\<close>.\<close>

fun get_prop :: "'n json \<Rightarrow> string \<Rightarrow> 'n json option" where
  "get_prop (JObj kvs) k = map_of kvs (lit k)"
| "get_prop _ k = None"

text \<open>The \<open>map\<close> callback over \<open>parts\<close>.\<close>

definition part_text :: "('n \<Rightarrow> jstring) \<Rightarrow> 'n json \<Rightarrow> jstring" where
  "part_text numstr part =
     (case get_prop part ''text'' of
        Some (JStr s) \<Rightarrow> s
      | Some (JNum n) \<Rightarrow> numstr n
      | Some (JBool b) \<Rightarrow> (if b then lit ''true'' else lit ''false'')
      | _ \<Rightarrow> [])"

text \<open>The body of the loop over \<open>candidates\<close>: \<open>None\<close> is \<open>continue\<close>.\<close>

definition candidate_text :: "('n \<Rightarrow> jstring) \<Rightarrow> 'n json \<Rightarrow> jstring option" where
  "candidate_text numstr candidate =
     (case get_prop candidate ''content'' of
        None \<Rightarrow> None
      | Some content \<Rightarrow>
          (case get_prop content ''parts'' of
             Some (JArr parts) \<Rightarrow>
               (let texts = filter (\<lambda>t. t \<noteq> []) (map (part_text numstr) parts) in
                if texts \<noteq> [] \<and> trim (concat texts) \<noteq> [] then Some (concat texts)
                else None)
           | _ \<Rightarrow> None))"

fun first_some :: "('a \<Rightarrow> 'b option) \<Rightarrow> 'a list \<Rightarrow> 'b option" where
  "first_some f [] = None"
| "first_some f (x # xs) = (case f x of Some y \<Rightarrow> Some y | None \<Rightarrow> first_some f xs)"

definition candidates_of :: "'n json \<Rightarrow> 'n json list" where
  "candidates_of payload =
     (case get_prop payload ''candidates'' of Some (JArr cs) \<Rightarrow> cs | _ \<Rightarrow> [])"

text \<open>\<open>extractGeminiText\<close> of \<open>src/lib/providers/gemini-native.ts\<close>.\<close>

definition extractGeminiText :: "('n \<Rightarrow> jstring) \<Rightarrow> 'n json \<Rightarrow> jstring option" where
  "extractGeminiText numstr payload = first_some (candidate_text numstr) (candidates_of payload)"

text \<open>
  \<open>extractGeminiText\<close> of the later revision (\<open>src/unnamed/part_002\<close>): a JSON array is
  searched from its last element back.
\<close>

fun extractGeminiText_arr :: "('n \<Rightarrow> jstring) \<Rightarrow> 'n json \<Rightarrow> jstring option" where
  "extractGeminiText_arr numstr JNull = None"
| "extractGeminiText_arr numstr (JArr xs) =
     first_some (\<lambda>r. r)
       (map (\<lambda>x. case extractGeminiText_arr numstr x of
                    Some e \<Rightarrow> (if e \<noteq> [] \<and> trim e \<noteq> [] then Some e else None)
                  | None \<Rightarrow> None)
          (rev xs))"
| "extractGeminiText_arr numstr payload =
     first_some (candidate_text numstr) (candidates_of payload)"

subsection \<open>The event-stream parser\<close>

text \<open>
  The three closures \<open>handlePayload\<close>, \<open>flushEvent\<close> and \<open>handleLine\<close> share the
  variables \<open>eventDataLines\<close>, \<open>text\<close> (here \<open>text_acc\<close>) and \<open>lastPayload\<close>; here
  they pass them as a record. The closures are literally the same in \<open>readEventStreamText\<close> of both
  revisions and in \<open>parseEventStreamLikeText\<close>; only \<open>extractGeminiText\<close> differs, so
  it is passed in as \<open>extractText\<close>. \<open>JSON.parse\<close> is \<open>parse\<close>, with \<open>None\<close> for a
  \<open>SyntaxError\<close>.
\<close>

record 'n parser_state =
  eventDataLines :: "jstring list"
  text_acc :: "jstring option"
  lastPayload :: "'n json option"

definition init_parser :: "'n parser_state" where
  "init_parser = \<lparr>eventDataLines = [], text_acc = None, lastPayload = None\<rparr>"

definition handlePayload ::
  "(jstring \<Rightarrow> 'n json option) \<Rightarrow> ('n json \<Rightarrow> jstring option) \<Rightarrow> jstring \<Rightarrow>
   'n parser_state \<Rightarrow> 'n parser_state" where
  "handlePayload parse extractText payload st =
     (let trimmed = trim payload in
      if trimmed = [] \<or> trimmed = lit ''[DONE]'' then st
      else (case parse trimmed of
              None \<Rightarrow> st
            | Some JNull \<Rightarrow> st
            | Some parsed \<Rightarrow>
                (let st' = st\<lparr>lastPayload := Some parsed\<rparr> in
                 case extractText parsed of
                   None \<Rightarrow> st'
                 | Some extracted \<Rightarrow>
                     if extracted \<noteq> [] \<and> trim extracted \<noteq> []
                     then st'\<lparr>text_acc := Some (mergeStreamText (text_acc st') extracted)\<rparr>
                     else st')))"

definition flushEvent ::
  "(jstring \<Rightarrow> 'n json option) \<Rightarrow> ('n json \<Rightarrow> jstring option) \<Rightarrow>
   'n parser_state \<Rightarrow> 'n parser_state" where
  "flushEvent parse extractText st =
     (if eventDataLines st = [] then st
      else (handlePayload parse extractText (join [10] (eventDataLines st)) st)
             \<lparr>eventDataLines := []\<rparr>)"

definition handleLine ::
  "(jstring \<Rightarrow> 'n json option) \<Rightarrow> ('n json \<Rightarrow> jstring option) \<Rightarrow> jstring \<Rightarrow>
   'n parser_state \<Rightarrow> 'n parser_state" where
  "handleLine parse extractText rawLine st =
     (let line = strip_cr rawLine; trimmed = trim line in
      if trimmed = [] then flushEvent parse extractText st
      else if prefix (lit ''data:'') trimmed
        then st\<lparr>eventDataLines := eventDataLines st @ [trim (drop 5 trimmed)]\<rparr>
      else if prefix (lit ''event:'') trimmed \<or> prefix (lit ''id:'') trimmed \<or>
              prefix (lit ''retry:'') trimmed \<or> prefix (lit '':'') trimmed
        then st
      else if prefix (lit ''{'') trimmed \<or> prefix (lit ''['') trimmed \<or> trimmed = lit ''null''
        then handlePayload parse extractText trimmed (flushEvent parse extractText st)
      else st)"

text \<open>\<open>for (const line of lines) handleLine(line)\<close>.\<close>

definition handleLines ::
  "(jstring \<Rightarrow> 'n json option) \<Rightarrow> ('n json \<Rightarrow> jstring option) \<Rightarrow> jstring list \<Rightarrow>
   'n parser_state \<Rightarrow> 'n parser_state" where
  "handleLines parse extractText lines st = fold (handleLine parse extractText) lines st"

text \<open>\<open>parseEventStreamLikeText(rawText)\<close> (later revision): the whole body at once.\<close>

definition parseEventStreamLikeText ::
  "(jstring \<Rightarrow> 'n json option) \<Rightarrow> ('n json \<Rightarrow> jstring option) \<Rightarrow> jstring \<Rightarrow>
   'n parser_state" where
  "parseEventStreamLikeText parse extractText rawText =
     flushEvent parse extractText (handleLines parse extractText (split_lines rawText) init_parser)"

text \<open>
  \<open>readEventStreamText(response)\<close>: the body arrives as decoded chunks; the last,
  unfinished line stays in \<open>buffer\<close>. A response with no body (\<open>None\<close>) throws.
\<close>

datatype stream_error = NoResponseBody

fun readChunks ::
  "(jstring \<Rightarrow> 'n json option) \<Rightarrow> ('n json \<Rightarrow> jstring option) \<Rightarrow> jstring list \<Rightarrow>
   jstring \<Rightarrow> 'n parser_state \<Rightarrow> jstring \<times> 'n parser_state" where
  "readChunks parse extractText [] buffer st = (buffer, st)"
| "readChunks parse extractText (chunk # chunks) buffer st =
     (let lines = split_lines (buffer @ chunk) in
      readChunks parse extractText chunks (last lines)
        (handleLines parse extractText (butlast lines) st))"

definition readEventStreamText ::
  "(jstring \<Rightarrow> 'n json option) \<Rightarrow> ('n json \<Rightarrow> jstring option) \<Rightarrow> jstring list option \<Rightarrow>
   stream_error + 'n parser_state" where
  "readEventStreamText parse extractText body =
     (case body of
        None \<Rightarrow> Inl NoResponseBody
      | Some chunks \<Rightarrow>
          (case readChunks parse extractText chunks [] init_parser of
             (buffer, st) \<Rightarrow>
               Inr (flushEvent parse extractText
                      (handleLines parse extractText (split_lines buffer) st))))"

section \<open>Gemini call URL\<close>

text \<open>
  \<open>const [base, query = ""] = trimmed.split("?")\<close>: the first piece, and the second
  piece when there is one. Pieces after the second are dropped by the destructuring.
  (\<open>split\<close> never returns an empty array; the first case is there for totality only.)
\<close>

definition split_base_query :: "jstring \<Rightarrow> jstring \<times> jstring" where
  "split_base_query s =
     (case split_on 63 s of
        [] \<Rightarrow> ([], [])
      | [b] \<Rightarrow> (b, [])
      | b # q # _ \<Rightarrow> (b, q))"

text \<open>\<open>resolveGeminiUrl(endpoint, model)\<close> of \<open>src/lib/providers/gemini-native.ts\<close>.\<close>

definition resolveGeminiUrl :: "jstring \<Rightarrow> jstring \<Rightarrow> jstring" where
  "resolveGeminiUrl endpoint model =
     (let trimmed = trim endpoint in
      if js_includes trimmed (lit '':streamGenerateContent'') then trimmed
      else (case split_base_query trimmed of
              (base, query) \<Rightarrow>
                (let normalizedBase = strip_trailing_slashes base in
                 if suffix (lit ''/v1beta/models'') normalizedBase
                 then (let nextBase = normalizedBase @ lit ''/'' @ model @
                                      lit '':streamGenerateContent''
                       in if query \<noteq> [] then nextBase @ lit ''?'' @ query else nextBase)
                 else trimmed)))"

datatype GeminiAction = StreamGenerateContent | GenerateContent

fun action_name :: "GeminiAction \<Rightarrow> jstring" where
  "action_name StreamGenerateContent = lit ''streamGenerateContent''"
| "action_name GenerateContent = lit ''generateContent''"

text \<open>
  \<open>resolveGeminiUrlForAction(endpoint, model, action)\<close> of the later revision
  (\<open>src/unnamed/part_002\<close>).
\<close>

definition resolveGeminiUrlForAction :: "jstring \<Rightarrow> jstring \<Rightarrow> GeminiAction \<Rightarrow> jstring" where
  "resolveGeminiUrlForAction endpoint model action =
     (let trimmed = trim endpoint in
      case split_base_query trimmed of
        (base, query) \<Rightarrow>
          (let normalizedBase = strip_trailing_slashes base;
               withQuery = (\<lambda>nextBase. if query \<noteq> [] then nextBase @ lit ''?'' @ query
                                       else nextBase)
           in
           if action = StreamGenerateContent \<and> js_includes trimmed (lit '':streamGenerateContent'')
             then trimmed
           else if action \<noteq> StreamGenerateContent \<and> js_includes trimmed (lit '':generateContent'')
             then trimmed
           else if action \<noteq> StreamGenerateContent \<and>
                   js_includes trimmed (lit '':streamGenerateContent'')
             then withQuery (replace_first (lit '':streamGenerateContent'')
                               (lit '':generateContent'') base)
           else if suffix (lit ''/v1beta/models'') normalizedBase
             then withQuery (normalizedBase @ lit ''/'' @ model @ lit '':'' @ action_name action)
           else trimmed))"

text \<open>
  The query string of a URL in the usual sense: everything after the first \<open>?\<close>.
  This is the reading of "the original query string", not a function of the source.
\<close>

definition url_query :: "jstring \<Rightarrow> jstring" where
  "url_query s = drop 1 (dropWhile (\<lambda>c. c \<noteq> 63) s)"

definition url_base :: "jstring \<Rightarrow> jstring" where
  "url_base s = takeWhile (\<lambda>c. c \<noteq> 63) s"

section \<open>Reasoning-effort directive\<close>

datatype ReasoningEffort = Low | Medium | High

record ModelDirective =
  modelId :: jstring
  reasoningEffort :: "ReasoningEffort option"

text \<open>
  Case folding as the \<open>i\<close> flag (without \<open>u\<close>) applies it against ASCII pattern letters:
  only the ASCII capitals fold, since a code unit of 128 or more never canonicalises to
  one below 128. On a string that matched the level alternative, \<open>toLowerCase()\<close> is the
  same map.
\<close>

definition to_lower :: "nat \<Rightarrow> nat" where
  "to_lower c = (if 65 \<le> c \<and> c \<le> 90 then c + 32 else c)"

definition EFFORT_ALIAS_MAP :: "jstring \<Rightarrow> ReasoningEffort option" where
  "EFFORT_ALIAS_MAP =
     map_of [(lit ''mini'', Low), (lit ''minimal'', Low), (lit ''low'', Low),
             (lit ''medium'', Medium), (lit ''high'', High)]"

text \<open>The alternative \<open>(mini|minimal|low|medium|high)\<close> followed by \<open>$\<close>, under \<open>i\<close>.\<close>

definition is_level :: "jstring \<Rightarrow> bool" where
  "is_level s \<longleftrightarrow>
     map to_lower s \<in> set [lit ''mini'', lit ''minimal'', lit ''low'', lit ''medium'', lit ''high'']"

text \<open>
  \<open>trimmed.match(/^(.*?)[@#](mini|minimal|low|medium|high)$/i)\<close>. The lazy group
  grows one unit at a time from the start; at each length the separator and the level
  must follow up to the end of the input. The dot takes no line terminator, so the
  search stops at one. The result is the pair \<open>(base, effortRaw)\<close>.
\<close>

fun match_directive :: "jstring \<Rightarrow> jstring \<Rightarrow> (jstring \<times> jstring) option" where
  "match_directive base [] = None"
| "match_directive base (c # cs) =
     (if (c = 64 \<or> c = 35) \<and> is_level cs then Some (base, cs)
      else if is_line_terminator c then None
      else match_directive (base @ [c]) cs)"

text \<open>\<open>\b\<close> looks at word characters \<open>[A-Za-z0-9_]\<close>.\<close>

definition is_word_char :: "nat \<Rightarrow> bool" where
  "is_word_char c \<longleftrightarrow>
     (48 \<le> c \<and> c \<le> 57) \<or> (65 \<le> c \<and> c \<le> 90) \<or> (97 \<le> c \<and> c \<le> 122) \<or> c = 95"

text \<open>
  \<open>/\bX/.test(s)\<close> for a pattern \<open>X\<close> that starts with a word character: \<open>X\<close> matches
  at a position whose predecessor is missing or not a word character. \<open>at\<close> tests \<open>X\<close>
  at the start of a string; \<open>prev\<close> tells whether the predecessor is a word character.
\<close>

fun test_at_boundary :: "(jstring \<Rightarrow> bool) \<Rightarrow> bool \<Rightarrow> jstring \<Rightarrow> bool" where
  "test_at_boundary at prev [] = False"
| "test_at_boundary at prev (c # cs) =
     ((\<not> prev \<and> at (c # cs)) \<or> test_at_boundary at (is_word_char c) cs)"

text \<open>\<open>o[1-9]\<close> under \<open>i\<close>, at the start of a string.\<close>

fun at_o_digit :: "jstring \<Rightarrow> bool" where
  "at_o_digit (c # d # _) = (to_lower c = 111 \<and> 49 \<le> d \<and> d \<le> 57)"
| "at_o_digit _ = False"

text \<open>\<open>REASONING_MODEL_HINTS.some((regex) => regex.test(trimmed))\<close>.\<close>

definition matches_reasoning_hint :: "jstring \<Rightarrow> bool" where
  "matches_reasoning_hint s \<longleftrightarrow>
     js_includes (map to_lower s) (lit ''codex'') \<or>
     test_at_boundary (\<lambda>r. prefix (lit ''gpt-5'') (map to_lower r)) False s \<or>
     test_at_boundary at_o_digit False s \<or>
     js_includes (map to_lower s) (lit ''deepseek-r1'') \<or>
     js_includes (map to_lower s) (lit ''qwq'')"

text \<open>\<open>parseModelDirective(model)\<close> of \<open>src/lib/providers/ai-sdk-check.ts\<close>.\<close>

definition parseModelDirective :: "jstring \<Rightarrow> ModelDirective" where
  "parseModelDirective model =
     (let trimmed = trim model in
      if trimmed = [] then \<lparr>modelId = model, reasoningEffort = None\<rparr>
      else (case match_directive [] trimmed of
              Some (base, effortRaw) \<Rightarrow>
                \<lparr>modelId = (if trim base \<noteq> [] then trim base else trimmed),
                 reasoningEffort = EFFORT_ALIAS_MAP (map to_lower effortRaw)\<rparr>
            | None \<Rightarrow>
                if matches_reasoning_hint trimmed
                then \<lparr>modelId = trimmed, reasoningEffort = Some Medium\<rparr>
                else \<lparr>modelId = trimmed, reasoningEffort = None\<rparr>))"

section \<open>Stream payloads\<close>

text \<open>
  A payload with no white space around it, as the data lines of a stream carry it.
\<close>

definition no_outer_space :: "jstring \<Rightarrow> bool" where
  "no_outer_space p \<longleftrightarrow> p \<noteq> [] \<and> \<not> is_js_space (hd p) \<and> \<not> is_js_space (last p)"

text \<open>
  A Gemini response object with one candidate holding one text part, and a stand-in for
  \<open>JSON.parse\<close> that knows two payloads; both serve concrete runs of the parser.
\<close>

definition sample_payload :: "jstring \<Rightarrow> nat json" where
  "sample_payload t =
     JObj [(lit ''candidates'',
            JArr [JObj [(lit ''content'',
                         JObj [(lit ''parts'', JArr [JObj [(lit ''text'', JStr t)]])])]])]"

definition sample_parse :: "jstring \<Rightarrow> nat json option" where
  "sample_parse s =
     (if s = lit ''{1}'' then Some (sample_payload (lit ''4''))
      else if s = lit ''{2}'' then Some (sample_payload (lit ''42''))
      else None)"

section \<open>Request headers of the Gemini call\<close>

text \<open>
  The platform's \<open>Headers\<close> object, after the Fetch standard. \<open>set(name, value)\<close> first
  strips leading and trailing HTTP white space (tab, LF, CR, space) from the value, then
  throws a \<open>TypeError\<close> unless the name is a token and the value has no NUL, LF or CR and
  no code unit above 255 (it must convert to a byte string); otherwise it stores the
  value under the name, names compared without regard to ASCII case. The object is a map
  keyed by the lower-cased name, and \<open>None\<close> stands for the \<open>TypeError\<close>.
\<close>

type_synonym headers = "jstring \<rightharpoonup> jstring"

definition is_http_whitespace :: "nat \<Rightarrow> bool" where
  "is_http_whitespace c \<longleftrightarrow> c = 9 \<or> c = 10 \<or> c = 13 \<or> c = 32"

definition normalize_value :: "jstring \<Rightarrow> jstring" where
  "normalize_value v =
     rev (dropWhile is_http_whitespace (rev (dropWhile is_http_whitespace v)))"

text \<open>The characters of a token: letters, digits and \<open>! # $ % & ' * + - . ^ _ ` | ~\<close>.\<close>

definition is_tchar :: "nat \<Rightarrow> bool" where
  "is_tchar c \<longleftrightarrow>
     (48 \<le> c \<and> c \<le> 57) \<or> (65 \<le> c \<and> c \<le> 90) \<or> (97 \<le> c \<and> c \<le> 122) \<or>
     c = 33 \<or> (35 \<le> c \<and> c \<le> 39) \<or> c = 42 \<or> c = 43 \<or> c = 45 \<or> c = 46 \<or>
     c = 94 \<or> c = 95 \<or> c = 96 \<or> c = 124 \<or> c = 126"

definition valid_header_name :: "jstring \<Rightarrow> bool" where
  "valid_header_name name \<longleftrightarrow> name \<noteq> [] \<and> list_all is_tchar name"

text \<open>Applied to a value that is already stripped.\<close>

definition valid_header_value :: "jstring \<Rightarrow> bool" where
  "valid_header_value v \<longleftrightarrow> list_all (\<lambda>c. c \<noteq> 0 \<and> c \<noteq> 10 \<and> c \<noteq> 13 \<and> c \<le> 255) v"

definition headers_set :: "headers \<Rightarrow> jstring \<Rightarrow> jstring \<Rightarrow> headers option" where
  "headers_set h name v =
     (let stripped = normalize_value v in
      if valid_header_name name \<and> valid_header_value stripped
      then Some (h(map to_lower name \<mapsto> stripped))
      else None)"

definition headers_get :: "headers \<Rightarrow> jstring \<Rightarrow> jstring option" where
  "headers_get h name = h (map to_lower name)"

text \<open>
  \<open>for (const [key, value] of entries) headers.set(key, value)\<close>; the first
  \<open>TypeError\<close> ends the loop. \<open>new Headers(init)\<close> goes through the properties of
  \<open>init\<close> in the same way (it appends, which for names that differ is the same as
  setting).
\<close>

fun set_entries :: "headers \<Rightarrow> (jstring \<times> jstring) list \<Rightarrow> headers option" where
  "set_entries h [] = Some h"
| "set_entries h ((key, v) # entries) =
     (case headers_set h key v of
        None \<Rightarrow> None
      | Some h' \<Rightarrow> set_entries h' entries)"

text \<open>
  The headers \<open>requestGeminiNative\<close> builds in \<open>src/lib/providers/gemini-native.ts\<close>;
  \<open>None\<close> when a \<open>TypeError\<close> ends the call before any request is sent.
  \<open>requestHeaders\<close> is the list \<open>Object.entries\<close> gives, \<open>None\<close> for \<open>null\<close> or
  \<open>undefined\<close>.
\<close>

definition requestGeminiNative_headers ::
  "jstring \<Rightarrow> (jstring \<times> jstring) list option \<Rightarrow> headers option" where
  "requestGeminiNative_headers apiKey requestHeaders =
     (case set_entries Map.empty
             [(lit ''Authorization'', lit ''Bearer '' @ apiKey),
              (lit ''Content-Type'', lit ''application/json''),
              (lit ''User-Agent'', lit ''check-cx/0.1.0'')] of
        None \<Rightarrow> None
      | Some h0 \<Rightarrow>
          (case set_entries h0 (case requestHeaders of None \<Rightarrow> [] | Some es \<Rightarrow> es) of
             None \<Rightarrow> None
           | Some h1 \<Rightarrow>
               (case headers_set h1 (lit ''Authorization'') (lit ''Bearer '' @ apiKey) of
                  None \<Rightarrow> None
                | Some h2 \<Rightarrow> headers_set h2 (lit ''Content-Type'') (lit ''application/json''))))"

text \<open>
  The same in the later revision (\<open>src/unnamed/part_002\<close>), which goes on to set
  \<open>Accept\<close> from the action; \<open>params.action ?? "streamGenerateContent"\<close>.
\<close>

definition requestGeminiNative_headers_action ::
  "jstring \<Rightarrow> (jstring \<times> jstring) list option \<Rightarrow> GeminiAction option \<Rightarrow> headers option" where
  "requestGeminiNative_headers_action apiKey requestHeaders action_opt =
     (let action = (case action_opt of None \<Rightarrow> StreamGenerateContent | Some a \<Rightarrow> a) in
      case set_entries Map.empty
             [(lit ''Authorization'', lit ''Bearer '' @ apiKey),
              (lit ''Content-Type'', lit ''application/json''),
              (lit ''User-Agent'', lit ''check-cx/0.1.0'')] of
        None \<Rightarrow> None
      | Some h0 \<Rightarrow>
          (case set_entries h0 (case requestHeaders of None \<Rightarrow> [] | Some es \<Rightarrow> es) of
             None \<Rightarrow> None
           | Some h1 \<Rightarrow>
               (case headers_set h1 (lit ''Authorization'') (lit ''Bearer '' @ apiKey) of
                  None \<Rightarrow> None
                | Some h2 \<Rightarrow>
                    (case headers_set h2 (lit ''Content-Type'') (lit ''application/json'') of
                       None \<Rightarrow> None
                     | Some h3 \<Rightarrow>
                         headers_set h3 (lit ''Accept'')
                           (if action = StreamGenerateContent
                            then lit ''application/json, text/event-stream''
                            else lit ''application/json'')))))"

text \<open>
  The last user-supplied value for a header name, names compared as \<open>Headers\<close> does:
  what "the entry is applied" means when two keys differ in letter case only.
\<close>

definition last_entry :: "(jstring \<times> jstring) list \<Rightarrow> jstring \<Rightarrow> jstring option" where
  "last_entry entries name =
     map_of (rev (map (\<lambda>(key, v). (map to_lower key, v)) entries)) (map to_lower name)"

text \<open>The user-supplied entries that \<open>Headers\<close> accepts.\<close>

definition entries_accepted :: "(jstring \<times> jstring) list \<Rightarrow> bool" where
  "entries_accepted entries \<longleftrightarrow>
     list_all (\<lambda>(key, v). valid_header_name key \<and> valid_header_value (normalize_value v))
       entries"

section \<open>Provider checks\<close>

text \<open>
  \<open>ProviderConfig\<close> and \<open>CheckResult\<close> are declared in \<open>types.ts\<close>, which is not among
  the sources; the fields are those the checks read and write. \<open>type\<close> is the union
  \<open>"openai" | "anthropic" | "gemini"\<close>. \<open>metadata\<close> is left out: nothing below reads it.
  A field that may be \<open>null\<close> or \<open>undefined\<close> is an \<open>option\<close>.
\<close>

datatype ProviderType = OpenAI | Anthropic | Gemini

record ProviderConfig =
  cfg_id :: jstring
  cfg_name :: jstring
  cfg_groupName :: "jstring option"
  cfg_type :: ProviderType
  cfg_apiKey :: jstring
  cfg_endpoint :: "jstring option"
  cfg_model :: jstring
  cfg_requestHeaders :: "(jstring \<times> jstring) list option"

text \<open>
  The statuses a result builder accepts:
  \<open>HealthStatus | "validation_failed" | "failed" | "error"\<close>.
\<close>

datatype HealthStatus = Operational | Degraded | Validation_failed | Failed | Error

record CheckResult =
  cr_id :: jstring
  cr_name :: jstring
  cr_type :: ProviderType
  cr_endpoint :: jstring
  cr_model :: jstring
  status :: HealthStatus
  latencyMs :: "int option"
  pingLatencyMs :: "int option"
  checkedAt :: jstring
  message :: jstring

text \<open>
  A thrown value: \<open>None\<close> for \<open>null\<close> or \<open>undefined\<close>, else an object with an optional
  \<open>name\<close> and an optional \<open>message\<close>.
\<close>

record js_error =
  error_name :: "jstring option"
  error_message :: "jstring option"

type_synonym thrown = "js_error option"

text \<open>\<open>error.message || ""\<close>.\<close>

definition message_or_empty :: "js_error \<Rightarrow> jstring" where
  "message_or_empty e = (case error_message e of None \<Rightarrow> [] | Some m \<Rightarrow> m)"

text \<open>\<open>isTimeoutError\<close> of \<open>src/lib/providers/ai-sdk-check.ts\<close>.\<close>

definition isTimeoutError :: "thrown \<Rightarrow> bool" where
  "isTimeoutError error =
     (case error of
        None \<Rightarrow> False
      | Some e \<Rightarrow>
          if error_name e = Some (lit ''AbortError'') then True
          else if js_includes (map to_lower (message_or_empty e)) (lit ''request was aborted'')
            then True
          else if js_includes (map to_lower (message_or_empty e)) (lit ''timeout'') then True
          else False)"

text \<open>The fixed messages, as code units.\<close>

definition MSG_TIMEOUT :: jstring where
  "MSG_TIMEOUT = [35831, 27714, 36229, 26102]"

definition MSG_UNKNOWN :: jstring where
  "MSG_UNKNOWN = [26410, 30693, 38169, 35823]"

definition MSG_EMPTY_REPLY :: jstring where
  "MSG_EMPTY_REPLY = [22238, 22797, 20026, 31354]"

definition msg_passed :: "int \<Rightarrow> jstring" where
  "msg_passed latency =
     [39564, 35777, 36890, 36807, 32, 40] @ js_int_to_string latency @ lit ''ms)''"

definition msg_slow :: "int \<Rightarrow> jstring" where
  "msg_slow latency =
     [21709, 24212, 25104, 21151, 20294, 32791, 26102, 32] @ js_int_to_string latency @ lit ''ms''"

definition msg_validation_failed :: "jstring \<Rightarrow> jstring list option \<Rightarrow> jstring" where
  "msg_validation_failed expected extracted =
     (let joined = (case extracted of None \<Rightarrow> [] | Some ns \<Rightarrow> join (lit '', '') ns);
          actual = (if joined \<noteq> [] then joined else [40, 26080, 25968, 23383, 41])
      in [22238, 22797, 39564, 35777, 22833, 36133, 58, 32, 26399, 26395, 32] @ expected @
         [44, 32, 23454, 38469, 58, 32] @ actual)"

text \<open>\<open>getErrorMessage\<close> of \<open>src/lib/providers/ai-sdk-check.ts\<close>.\<close>

definition getErrorMessage :: "thrown \<Rightarrow> jstring" where
  "getErrorMessage error =
     (if isTimeoutError error then MSG_TIMEOUT
      else (case error of
              None \<Rightarrow> MSG_UNKNOWN
            | Some e \<Rightarrow> if message_or_empty e \<noteq> [] then message_or_empty e else MSG_UNKNOWN))"

text \<open>
  What one run of a check reads from outside: the clock at entry, the clock when the
  reply or the failure is there, the timestamp when the result is built, what
  \<open>measureEndpointPing\<close> resolves to, and the challenge of \<open>generateChallenge()\<close>.
\<close>

record check_env =
  startedAt :: int
  finishedAt :: int
  builtAt :: jstring
  pingResult :: "int option"
  prompt :: jstring
  expectedAnswer :: jstring

text \<open>What \<open>validateResponse\<close> (not in the sources at hand; a parameter below) returns.\<close>

record validation =
  valid :: bool
  extractedNumbers :: "jstring list option"

text \<open>\<open>buildCheckResult\<close>; the curried form of the Gemini file builds the same object.\<close>

definition buildCheckResult ::
  "check_env \<Rightarrow> ProviderConfig \<Rightarrow> jstring \<Rightarrow> int option \<Rightarrow> HealthStatus \<Rightarrow> int option \<Rightarrow>
   jstring \<Rightarrow> CheckResult" where
  "buildCheckResult env config endpoint ping st latency msg =
     \<lparr>cr_id = cfg_id config, cr_name = cfg_name config, cr_type = cfg_type config,
      cr_endpoint = endpoint, cr_model = cfg_model config, status = st,
      latencyMs = latency, pingLatencyMs = ping, checkedAt = builtAt env, message = msg\<rparr>"

text \<open>
  The part of the \<open>try\<close> block after the reply is in: the same statements in
  \<open>checkWithAiSdk\<close> and in both revisions of \<open>checkWithGeminiNative\<close>, up to the
  threshold constant. \<open>toResult\<close> is the result builder with its base filled in.
\<close>

definition grade_reply ::
  "(jstring \<Rightarrow> jstring \<Rightarrow> validation) \<Rightarrow> int \<Rightarrow> check_env \<Rightarrow>
   (HealthStatus \<Rightarrow> int option \<Rightarrow> jstring \<Rightarrow> CheckResult) \<Rightarrow> jstring \<Rightarrow> CheckResult" where
  "grade_reply validateResponse threshold env toResult responseText =
     (let latency = finishedAt env - startedAt env in
      if trim responseText = [] then toResult Failed (Some latency) MSG_EMPTY_REPLY
      else (let v = validateResponse responseText (expectedAnswer env) in
            if \<not> valid v
            then toResult Validation_failed (Some latency)
                   (msg_validation_failed (expectedAnswer env) (extractedNumbers v))
            else (let st = (if latency \<le> threshold then Operational else Degraded);
                      msg = (if st = Degraded then msg_slow latency else msg_passed latency)
                  in toResult st (Some latency) msg)))"

text \<open>
  \<open>checkWithAiSdk(config)\<close>. \<open>attempt\<close> is what the work inside \<open>try\<close> ends with: the
  text collected from the stream, or the value thrown by \<open>createModel\<close>, \<open>streamText\<close> or
  the iteration. \<open>DEFAULT_ENDPOINTS\<close> is imported from a file not at hand.
\<close>

definition checkWithAiSdk ::
  "(ProviderType \<Rightarrow> jstring) \<Rightarrow> (jstring \<Rightarrow> jstring \<Rightarrow> validation) \<Rightarrow> check_env \<Rightarrow>
   ProviderConfig \<Rightarrow> thrown + jstring \<Rightarrow> CheckResult" where
  "checkWithAiSdk DEFAULT_ENDPOINTS validateResponse env config attempt =
     (let displayEndpoint =
            (case cfg_endpoint config of
               None \<Rightarrow> DEFAULT_ENDPOINTS (cfg_type config)
             | Some e \<Rightarrow> if e \<noteq> [] then e else DEFAULT_ENDPOINTS (cfg_type config));
          toResult = buildCheckResult env config displayEndpoint (pingResult env)
      in case attempt of
           Inr collectedResponse \<Rightarrow>
             grade_reply validateResponse 6000 env toResult collectedResponse
         | Inl error \<Rightarrow> toResult Failed None (getErrorMessage error))"

text \<open>The parameters of one \<open>requestGeminiNative\<close> call.\<close>

record gemini_request =
  rq_endpoint :: jstring
  rq_apiKey :: jstring
  rq_model :: jstring
  rq_prompt :: jstring
  rq_timeoutMs :: int
  rq_action :: "GeminiAction option"
  rq_requestHeaders :: "(jstring \<times> jstring) list option"

text \<open>\<open>config.endpoint?.trim() || DEFAULT_ENDPOINTS.gemini\<close>.\<close>

definition gemini_display_endpoint :: "jstring \<Rightarrow> ProviderConfig \<Rightarrow> jstring" where
  "gemini_display_endpoint default_gemini config =
     (case cfg_endpoint config of
        None \<Rightarrow> default_gemini
      | Some e \<Rightarrow> if trim e \<noteq> [] then trim e else default_gemini)"

text \<open>
  \<open>checkWithGeminiNative(config)\<close> of \<open>src/lib/providers/gemini-native.ts\<close>.
  \<open>request\<close> stands for \<open>requestGeminiNative\<close> as seen from the check: the text it
  resolves to, or the value it throws. \<open>errorMessage\<close> is \<open>getErrorMessage\<close> of
  \<open>utils/error-handler\<close>, a file not at hand.
\<close>

definition checkWithGeminiNative ::
  "(thrown \<Rightarrow> jstring) \<Rightarrow> jstring \<Rightarrow> (jstring \<Rightarrow> jstring \<Rightarrow> validation) \<Rightarrow> check_env \<Rightarrow>
   ProviderConfig \<Rightarrow> (gemini_request \<Rightarrow> thrown + jstring) \<Rightarrow> CheckResult" where
  "checkWithGeminiNative errorMessage default_gemini validateResponse env config request =
     (let displayEndpoint = gemini_display_endpoint default_gemini config;
          toResult = buildCheckResult env config displayEndpoint (pingResult env)
      in case request \<lparr>rq_endpoint = displayEndpoint, rq_apiKey = cfg_apiKey config,
                       rq_model = cfg_model config, rq_prompt = prompt env,
                       rq_timeoutMs = 45000, rq_action = None,
                       rq_requestHeaders = cfg_requestHeaders config\<rparr> of
           Inr responseText \<Rightarrow> grade_reply validateResponse 6000 env toResult responseText
         | Inl error \<Rightarrow>
             toResult Error (Some (finishedAt env - startedAt env)) (errorMessage error))"

text \<open>
  \<open>checkWithGeminiNative(config)\<close> in its first revision (the copy that follows
  \<open>checkWithAiSdk\<close> in \<open>src/lib/providers/ai-sdk-check.ts\<close>): the same \<open>try\<close> block,
  but the \<open>catch\<close> block records no latency.
\<close>

definition checkWithGeminiNative_initial ::
  "(thrown \<Rightarrow> jstring) \<Rightarrow> jstring \<Rightarrow> (jstring \<Rightarrow> jstring \<Rightarrow> validation) \<Rightarrow> check_env \<Rightarrow>
   ProviderConfig \<Rightarrow> (gemini_request \<Rightarrow> thrown + jstring) \<Rightarrow> CheckResult" where
  "checkWithGeminiNative_initial errorMessage default_gemini validateResponse env config request =
     (let displayEndpoint = gemini_display_endpoint default_gemini config;
          toResult = buildCheckResult env config displayEndpoint (pingResult env)
      in case request \<lparr>rq_endpoint = displayEndpoint, rq_apiKey = cfg_apiKey config,
                       rq_model = cfg_model config, rq_prompt = prompt env,
                       rq_timeoutMs = 45000, rq_action = None,
                       rq_requestHeaders = cfg_requestHeaders config\<rparr> of
           Inr responseText \<Rightarrow> grade_reply validateResponse 6000 env toResult responseText
         | Inl error \<Rightarrow> toResult Error None (errorMessage error))"

text \<open>
  \<open>checkGemini(config)\<close>, the check through the OpenAI-compatible interface (the second
  file in \<open>src/lib/providers/gemini-native.ts\<close>). It reads the stream to its end and
  does not grade the text. \<open>attempt\<close> is what the work inside \<open>try\<close> ends with: the end of
  the stream, or a thrown value. The \<open>catch\<close> block tests the name of the error only.
  Both object literals of the source list the fields that \<open>buildCheckResult\<close> fills.
\<close>

definition msg_stream_ok :: "int \<Rightarrow> jstring" where
  "msg_stream_ok latency =
     [27969, 24335, 21709, 24212, 27491, 24120, 32, 40] @ js_int_to_string latency @ lit ''ms)''"

definition checkGemini ::
  "jstring \<Rightarrow> check_env \<Rightarrow> ProviderConfig \<Rightarrow> thrown + unit \<Rightarrow> CheckResult" where
  "checkGemini default_gemini env config attempt =
     (let displayEndpoint =
            (case cfg_endpoint config of
               None \<Rightarrow> default_gemini
             | Some e \<Rightarrow> if e \<noteq> [] then e else default_gemini);
          toResult = buildCheckResult env config displayEndpoint (pingResult env)
      in case attempt of
           Inr finished \<Rightarrow>
             (let latency = finishedAt env - startedAt env;
                  st = (if latency \<le> 6000 then Operational else Degraded);
                  msg = (if st = Degraded then msg_slow latency else msg_stream_ok latency)
              in toResult st (Some latency) msg)
         | Inl error \<Rightarrow>
             (let msg = (case error of
                           None \<Rightarrow> MSG_UNKNOWN
                         | Some err \<Rightarrow>
                             if error_name err = Some (lit ''AbortError'') then MSG_TIMEOUT
                             else if message_or_empty err \<noteq> [] then message_or_empty err
                             else MSG_UNKNOWN)
              in toResult Failed None msg))"

text \<open>
  \<open>Number(process.env.DEGRADED_THRESHOLD_MS) || 6_000\<close> of the later revision. The
  argument is the number read from the environment, \<open>None\<close> when the variable is unset
  or not a number (\<open>NaN\<close>).
\<close>

definition DEGRADED_THRESHOLD_MS :: "int option \<Rightarrow> int" where
  "DEGRADED_THRESHOLD_MS env_value =
     (case env_value of None \<Rightarrow> 6000 | Some n \<Rightarrow> if n = 0 then 6000 else n)"

text \<open>
  \<open>checkWithGeminiNative(config)\<close> of the later revision (\<open>src/unnamed/part_002\<close>), with
  the retry. Next to the result it returns the requests it issued, in order.
\<close>

definition checkWithGeminiNative_retry ::
  "(thrown \<Rightarrow> jstring) \<Rightarrow> jstring \<Rightarrow> (jstring \<Rightarrow> jstring \<Rightarrow> validation) \<Rightarrow> int option \<Rightarrow>
   check_env \<Rightarrow> ProviderConfig \<Rightarrow> (gemini_request \<Rightarrow> thrown + jstring) \<Rightarrow>
   gemini_request list \<times> CheckResult" where
  "checkWithGeminiNative_retry errorMessage default_gemini validateResponse env_threshold env
       config request =
     (let displayEndpoint = gemini_display_endpoint default_gemini config;
          toResult = buildCheckResult env config displayEndpoint (pingResult env);
          failure = (\<lambda>error. toResult Error (Some (finishedAt env - startedAt env))
                                (errorMessage error));
          grade = grade_reply validateResponse (DEGRADED_THRESHOLD_MS env_threshold) env toResult;
          first = \<lparr>rq_endpoint = displayEndpoint, rq_apiKey = cfg_apiKey config,
                   rq_model = cfg_model config, rq_prompt = prompt env,
                   rq_timeoutMs = 45000, rq_action = Some StreamGenerateContent,
                   rq_requestHeaders = cfg_requestHeaders config\<rparr>;
          second = \<lparr>rq_endpoint = displayEndpoint, rq_apiKey = cfg_apiKey config,
                    rq_model = cfg_model config, rq_prompt = prompt env,
                    rq_timeoutMs = 45000, rq_action = Some GenerateContent,
                    rq_requestHeaders = cfg_requestHeaders config\<rparr>
      in case request first of
           Inl error \<Rightarrow> ([first], failure error)
         | Inr responseText \<Rightarrow>
             if trim responseText = []
             then (case request second of
                     Inl error \<Rightarrow> ([first, second], failure error)
                   | Inr retryText \<Rightarrow> ([first, second], grade retryText))
             else ([first], grade responseText))"

section \<open>Poller\<close>

text \<open>
  The process-wide fields of \<open>globalWithPoller\<close> that \<open>tick\<close> reads and writes. An unset
  \<open>__checkCxPollerRunning\<close> is falsy, hence \<open>False\<close>.
\<close>

record poller_state =
  pollerRunning :: bool
  lastPingStartedAt :: "int option"

text \<open>
  What a tick does to the outside, in order: its log lines and its two calls into the
  collaborators.
\<close>

datatype poller_event =
    Log_skip "int option"
  | Log_start int
  | Call_runProviderChecks
  | Log_no_config
  | Log_details "CheckResult list"
  | Log_writing nat
  | Call_appendHistory "CheckResult list"
  | Log_history_updated nat nat
  | Log_summary int nat nat nat int
  | Log_poll_failed

text \<open>
  \<open>tick\<close> is an \<open>async\<close> function with two \<open>await\<close>s; other timer callbacks can run
  while it waits. It is modelled as three steps on the shared state. \<open>tick_enter\<close> is
  the part up to \<open>await runProviderChecks()\<close>; it returns its \<open>startedAt\<close> when the tick
  goes on, \<open>None\<close> when it has returned.
\<close>

definition tick_enter ::
  "poller_state \<Rightarrow> int \<Rightarrow> poller_state \<times> poller_event list \<times> int option" where
  "tick_enter s now =
     (if pollerRunning s
      then (let duration = (case lastPingStartedAt s of
                              None \<Rightarrow> None
                            | Some lastStartedAt \<Rightarrow>
                                if lastStartedAt \<noteq> 0 then Some (now - lastStartedAt) else None)
            in (s, [Log_skip duration], None))
      else (s\<lparr>lastPingStartedAt := Some now, pollerRunning := True\<rparr>,
            [Log_start now, Call_runProviderChecks], Some now))"

text \<open>
  From the return of \<open>runProviderChecks()\<close>, or its exception, to
  \<open>await appendHistory(results)\<close>. It returns the results when the tick goes on.
\<close>

definition tick_checked ::
  "poller_state \<Rightarrow> thrown + CheckResult list \<Rightarrow>
   poller_state \<times> poller_event list \<times> CheckResult list option" where
  "tick_checked s outcome =
     (case outcome of
        Inl error \<Rightarrow> (s\<lparr>pollerRunning := False\<rparr>, [Log_poll_failed], None)
      | Inr results \<Rightarrow>
          if results = [] then (s\<lparr>pollerRunning := False\<rparr>, [Log_no_config], None)
          else (s, [Log_details results, Log_writing (length results),
                    Call_appendHistory results], Some results))"

text \<open>
  From the return of \<open>appendHistory\<close> to the end. The snapshot is summarised by its two
  counts; an exception of \<open>appendHistory\<close> or of the statements after it is \<open>Inl\<close>.
\<close>

definition tick_appended ::
  "int \<Rightarrow> poller_state \<Rightarrow> int \<Rightarrow> CheckResult list \<Rightarrow> thrown + nat \<times> nat \<Rightarrow> int \<Rightarrow>
   poller_state \<times> poller_event list" where
  "tick_appended POLL_INTERVAL_MS s tickStartedAt results outcome now =
     (case outcome of
        Inl error \<Rightarrow> (s\<lparr>pollerRunning := False\<rparr>, [Log_poll_failed])
      | Inr (providerCount, recordCount) \<Rightarrow>
          (s\<lparr>pollerRunning := False\<rparr>,
           [Log_history_updated providerCount recordCount,
            Log_summary (now - tickStartedAt)
              (length (filter (\<lambda>r. status r = Operational) results))
              (length (filter (\<lambda>r. status r = Degraded) results))
              (length (filter (\<lambda>r. status r = Failed) results))
              (tickStartedAt + POLL_INTERVAL_MS)]))"

text \<open>What one tick meets when nothing else runs in between.\<close>

record tick_world =
  enteredAt :: int
  checksOutcome :: "thrown + CheckResult list"
  historyOutcome :: "thrown + nat \<times> nat"
  doneAt :: int

definition tick :: "int \<Rightarrow> poller_state \<Rightarrow> tick_world \<Rightarrow> poller_state \<times> poller_event list" where
  "tick POLL_INTERVAL_MS s w =
     (case tick_enter s (enteredAt w) of
        (s1, ev1, None) \<Rightarrow> (s1, ev1)
      | (s1, ev1, Some started) \<Rightarrow>
          (case tick_checked s1 (checksOutcome w) of
             (s2, ev2, None) \<Rightarrow> (s2, ev1 @ ev2)
           | (s2, ev2, Some results) \<Rightarrow>
               (case tick_appended POLL_INTERVAL_MS s2 started results (historyOutcome w)
                       (doneAt w) of
                  (s3, ev3) \<Rightarrow> (s3, ev1 @ ev2 @ ev3))))"

text \<open>
  A configuration, the readings of one run and stand-ins for the imported
  \<open>DEFAULT_ENDPOINTS\<close> and \<open>validateResponse\<close>, for concrete runs of the checks. The
  stand-in validator accepts a reply that contains the expected answer.
\<close>

definition sample_config :: ProviderConfig where
  "sample_config =
     \<lparr>cfg_id = lit ''p1'', cfg_name = lit ''demo'', cfg_groupName = None, cfg_type = Gemini,
      cfg_apiKey = lit ''k'', cfg_endpoint = None, cfg_model = lit ''gemini-pro'',
      cfg_requestHeaders = None\<rparr>"

definition sample_env :: check_env where
  "sample_env =
     \<lparr>startedAt = 1000, finishedAt = 1250, builtAt = lit ''2024-01-01T00:00:00.000Z'',
      pingResult = Some 20, prompt = lit ''3 + 5 = ?'', expectedAnswer = lit ''8''\<rparr>"

definition sample_endpoints :: "ProviderType \<Rightarrow> jstring" where
  "sample_endpoints t = lit ''https://example.test/v1beta/models''"

definition sample_validate :: "jstring \<Rightarrow> jstring \<Rightarrow> validation" where
  "sample_validate reply expected =
     (if js_includes reply expected then \<lparr>valid = True, extractedNumbers = Some [expected]\<rparr>
      else \<lparr>valid = False, extractedNumbers = None\<rparr>)"

text \<open>
  A transport whose streaming call returns a blank text and whose \<open>generateContent\<close>
  call returns \<open>8\<close>.
\<close>

definition sample_retry_request :: "gemini_request \<Rightarrow> thrown + jstring" where
  "sample_retry_request rq =
     (if rq_action rq = Some GenerateContent then Inr (lit ''8'') else Inr (lit '' ''))"

text \<open>The poller before its first tick.\<close>

definition idle_poller :: poller_state where
  "idle_poller = \<lparr>pollerRunning = False, lastPingStartedAt = None\<rparr>"

section \<open>Properties of the fragment merge\<close>

lemma trim_end_fixed: "s \<noteq> [] \<Longrightarrow> \<not> is_js_space (last s) \<Longrightarrow> trim_end s = s"
  by (cases s rule: rev_cases) (simp_all add: trim_end_def)

lemma trim_fixed:
  "s \<noteq> [] \<Longrightarrow> \<not> is_js_space (hd s) \<Longrightarrow> \<not> is_js_space (last s) \<Longrightarrow> trim s = s"
  by (cases s) (simp_all add: trim_def trim_end_fixed)

lemma trim_space_Cons: "is_js_space c \<Longrightarrow> trim (c # s) = trim s"
  by (simp add: trim_def)

lemma trim_no_outer_space: "no_outer_space p \<Longrightarrow> trim p = p"
  by (simp add: no_outer_space_def trim_fixed)

lemma is_js_space_simps: "is_js_space 13" "is_js_space 32" "\<not> is_js_space 100"
  by (simp_all add: is_js_space_def)

lemma data_line_trim:
  assumes "no_outer_space p"
  shows "trim (strip_cr (lit ''data: '' @ p)) = lit ''data: '' @ p"
proof -
  from assms have ne: "p \<noteq> []" and l: "\<not> is_js_space (last p)"
    by (simp_all add: no_outer_space_def)
  from l have "last p \<noteq> 13" using is_js_space_simps(1) by metis
  with ne have "strip_cr (lit ''data: '' @ p) = lit ''data: '' @ p"
    by (simp add: strip_cr_def)
  moreover have "trim (lit ''data: '' @ p) = lit ''data: '' @ p"
    using ne l by (intro trim_fixed) (simp_all add: lit_def is_js_space_def)
  ultimately show ?thesis by simp
qed

lemma handleLine_data:
  assumes "no_outer_space p"
  shows "handleLine parse extractText (lit ''data: '' @ p) st =
         st\<lparr>eventDataLines := eventDataLines st @ [p]\<rparr>"
  apply (simp only: handleLine_def Let_def data_line_trim [OF assms])
  apply (simp add: lit_def trim_space_Cons is_js_space_simps trim_no_outer_space [OF assms])
  done

lemma handleLine_blank: "handleLine parse extractText [] st = flushEvent parse extractText st"
  by (simp add: handleLine_def strip_cr_def trim_def trim_end_def)

lemma flushEvent_single:
  assumes "eventDataLines st = [p]" "no_outer_space p" "p \<noteq> lit ''[DONE]''"
  shows "flushEvent parse extractText st = (handlePayload parse extractText p st)\<lparr>eventDataLines := []\<rparr>"
  using assms by (simp add: flushEvent_def)

lemma handlePayload_lines [simp]:
  "eventDataLines (handlePayload parse extractText p st) = eventDataLines st"
  by (simp add: handlePayload_def Let_def split: option.splits json.splits)

lemma handlePayload_text_cases:
  assumes "extractText j = Some t" "parse (trim p) = Some j"
  shows "text_acc (handlePayload parse extractText p st) = text_acc st \<or>
         (t \<noteq> [] \<and> text_acc (handlePayload parse extractText p st) = Some (mergeStreamText (text_acc st) t))"
  using assms by (cases j) (auto simp: handlePayload_def Let_def)

lemma handlePayload_text:
  assumes "no_outer_space p" "p \<noteq> lit ''[DONE]''" "parse p = Some j" "j \<noteq> JNull"
    "extractText j = Some t" "trim t \<noteq> []"
  shows "text_acc (handlePayload parse extractText p st) = Some (mergeStreamText (text_acc st) t)"
proof -
  from assms(6) have "t \<noteq> []" by (auto simp: trim_def trim_end_def)
  with assms show ?thesis
    by (cases j) (simp_all add: handlePayload_def Let_def trim_no_outer_space no_outer_space_def)
qed

lemma merge_after_prefix:
  assumes "prefix t1 t2" "a = None \<or> a = Some t1"
  shows "mergeStreamText a t2 = t2"
  using assms by (auto simp: mergeStreamText_def)

lemma handleLines_two_events:
  assumes h: "no_outer_space p1 \<and> p1 \<noteq> lit ''[DONE]'' \<and> no_outer_space p2 \<and>
    p2 \<noteq> lit ''[DONE]'' \<and> parse p1 = Some j1 \<and> extractText j1 = Some t1 \<and>
    parse p2 = Some j2 \<and> j2 \<noteq> JNull \<and> extractText j2 = Some t2 \<and> trim t2 \<noteq> [] \<and>
    prefix t1 t2"
  shows "text_acc (handleLines parse extractText
            [lit ''data: '' @ p1, [], lit ''data: '' @ p2, []] init_parser) = Some t2 \<and>
         eventDataLines (handleLines parse extractText
            [lit ''data: '' @ p1, [], lit ''data: '' @ p2, []] init_parser) = []"
proof -
  define s1 where "s1 = handleLine parse extractText (lit ''data: '' @ p1) init_parser"
  define s2 where "s2 = handleLine parse extractText [] s1"
  define s3 where "s3 = handleLine parse extractText (lit ''data: '' @ p2) s2"
  define s4 where "s4 = handleLine parse extractText [] s3"
  have l1: "eventDataLines s1 = [p1]" and x1: "text_acc s1 = None"
    using h by (simp_all add: s1_def handleLine_data init_parser_def)
  have s2: "s2 = (handlePayload parse extractText p1 s1)\<lparr>eventDataLines := []\<rparr>"
    using h l1 by (simp add: s2_def handleLine_blank flushEvent_single)
  have pt: "parse (trim p1) = Some j1" using h by (simp add: trim_no_outer_space)
  have e1: "extractText j1 = Some t1" using h by simp
  from handlePayload_text_cases [where extractText = extractText and j = j1 and t = t1
      and parse = parse and p = p1 and st = s1, OF e1 pt] x1
  have x2: "text_acc s2 = None \<or> (t1 \<noteq> [] \<and> text_acc s2 = Some t1)"
    by (auto simp: s2 mergeStreamText_def)
  have l2: "eventDataLines s2 = []" by (simp add: s2)
  have s3: "s3 = s2\<lparr>eventDataLines := [p2]\<rparr>"
    using h l2 by (simp add: s3_def handleLine_data)
  have s4: "s4 = (handlePayload parse extractText p2 s3)\<lparr>eventDataLines := []\<rparr>"
    using h s3 by (simp add: s4_def handleLine_blank flushEvent_single)
  have "text_acc s4 = Some (mergeStreamText (text_acc s3) t2)"
    using h by (simp add: s4 handlePayload_text)
  moreover have "mergeStreamText (text_acc s3) t2 = t2"
    using x2 h by (auto simp: s3 mergeStreamText_def)
  ultimately have x4: "text_acc s4 = Some t2" by simp
  have l4: "eventDataLines s4 = []" by (simp add: s4)
  have "handleLines parse extractText
      [lit ''data: '' @ p1, [], lit ''data: '' @ p2, []] init_parser = s4"
    by (simp add: handleLines_def s4_def s3_def s2_def s1_def)
  with x4 l4 show ?thesis by simp
qed

text \<open>
  Claim C6. The merge returns the new fragment when the accumulated text is absent, empty
  or a prefix of it, the accumulated text when the new fragment is a prefix of that, and
  the concatenation otherwise. Consequently two \<open>data:\<close> events fed to the stream
  parser, the second's text having the first's as a prefix, leave exactly the second's
  text: nothing is duplicated.
\<close>

theorem mergeStreamText_overlap_merge:
  "mergeStreamText None n = n \<and>
   mergeStreamText (Some p) n =
     (if p = [] \<or> prefix p n then n else if prefix n p then p else p @ n) \<and>
   (no_outer_space p1 \<and> p1 \<noteq> lit ''[DONE]'' \<and> no_outer_space p2 \<and> p2 \<noteq> lit ''[DONE]'' \<and>
    parse p1 = Some j1 \<and> extractText j1 = Some t1 \<and>
    parse p2 = Some j2 \<and> j2 \<noteq> JNull \<and> extractText j2 = Some t2 \<and> trim t2 \<noteq> [] \<and>
    prefix t1 t2 \<longrightarrow>
    text_acc (flushEvent parse extractText
      (handleLines parse extractText [lit ''data: '' @ p1, [], lit ''data: '' @ p2, []] init_parser))
      = Some t2)"
proof (intro conjI impI)
  show "mergeStreamText None n = n" by (simp add: mergeStreamText_def)
  show "mergeStreamText (Some p) n =
     (if p = [] \<or> prefix p n then n else if prefix n p then p else p @ n)"
    by (simp add: mergeStreamText_def)
next
  assume "no_outer_space p1 \<and> p1 \<noteq> lit ''[DONE]'' \<and> no_outer_space p2 \<and> p2 \<noteq> lit ''[DONE]'' \<and>
    parse p1 = Some j1 \<and> extractText j1 = Some t1 \<and>
    parse p2 = Some j2 \<and> j2 \<noteq> JNull \<and> extractText j2 = Some t2 \<and> trim t2 \<noteq> [] \<and>
    prefix t1 t2"
  from handleLines_two_events [OF this]
  show "text_acc (flushEvent parse extractText
      (handleLines parse extractText [lit ''data: '' @ p1, [], lit ''data: '' @ p2, []] init_parser))
      = Some t2"
    by (simp add: flushEvent_def)
qed

theorem mergeStreamText_overlap_merge_witness:
  "no_outer_space (lit ''{1}'') \<and> no_outer_space (lit ''{2}'') \<and>
   sample_parse (lit ''{1}'') = Some (sample_payload (lit ''4'')) \<and>
   extractGeminiText_arr dec_nat (sample_payload (lit ''4'')) = Some (lit ''4'') \<and>
   sample_parse (lit ''{2}'') = Some (sample_payload (lit ''42'')) \<and>
   extractGeminiText_arr dec_nat (sample_payload (lit ''42'')) = Some (lit ''42'') \<and>
   prefix (lit ''4'') (lit ''42'') \<and>
   text_acc (flushEvent sample_parse (extractGeminiText_arr dec_nat)
      (handleLines sample_parse (extractGeminiText_arr dec_nat)
         [lit ''data: '' @ lit ''{1}'', [], lit ''data: '' @ lit ''{2}'', []] init_parser))
     = Some (lit ''42'')"
proof -
  have a: "no_outer_space (lit ''{1}'')" "no_outer_space (lit ''{2}'')"
    by (simp_all add: no_outer_space_def lit_def is_js_space_def)
  have b: "lit ''{1}'' \<noteq> lit ''[DONE]''" "lit ''{2}'' \<noteq> lit ''[DONE]''"
    by (simp_all add: lit_def)
  have c: "sample_parse (lit ''{1}'') = Some (sample_payload (lit ''4''))"
    "sample_parse (lit ''{2}'') = Some (sample_payload (lit ''42''))"
    by (simp_all add: sample_parse_def lit_def)
  have d: "extractGeminiText_arr dec_nat (sample_payload (lit ''4'')) = Some (lit ''4'')"
    "extractGeminiText_arr dec_nat (sample_payload (lit ''42'')) = Some (lit ''42'')"
    by (simp_all add: sample_payload_def candidates_of_def candidate_text_def part_text_def
        lit_def trim_def trim_end_def is_js_space_def)
  have e: "sample_payload (lit ''42'') \<noteq> JNull" by (simp add: sample_payload_def)
  have f: "trim (lit ''42'') \<noteq> []" by (simp add: lit_def trim_def trim_end_def is_js_space_def)
  have g: "prefix (lit ''4'') (lit ''42'')" by (simp add: lit_def)
  from mergeStreamText_overlap_merge [where ?p1.0 = "lit ''{1}''" and ?p2.0 = "lit ''{2}''"
      and parse = sample_parse and extractText = "extractGeminiText_arr dec_nat"
      and ?j1.0 = "sample_payload (lit ''4'')" and ?j2.0 = "sample_payload (lit ''42'')"
      and ?t1.0 = "lit ''4''" and ?t2.0 = "lit ''42''"]
    a b c d e f g
  show ?thesis by blast
qed

text \<open>
  The same two events through the whole-body parser and through the chunked reader, the
  chunk borders falling inside a payload and between CR and LF.
\<close>

lemmas parser_defs = readEventStreamText_def parseEventStreamLikeText_def handleLines_def handleLine_def
  flushEvent_def handlePayload_def init_parser_def strip_cr_def trim_def trim_end_def is_js_space_def
  lit_def Let_def sample_parse_def sample_payload_def candidates_of_def candidate_text_def part_text_def
  mergeStreamText_def

lemma parseEventStreamLikeText_sample:
  "text_acc (parseEventStreamLikeText sample_parse (extractGeminiText_arr dec_nat)
     (lit ''data: {1}'' @ [13, 10, 13, 10] @ lit ''data: {2}'' @ [10])) = Some (lit ''42'')"
  by (simp add: parser_defs)

lemma readEventStreamText_sample:
  "map_sum id text_acc (readEventStreamText sample_parse (extractGeminiText_arr dec_nat)
     (Some [lit ''data: {1'', lit ''}'' @ [13], [10, 10], lit ''data: {2}''])) =
   Inr (Some (lit ''42''))"
  by (simp add: parser_defs)
section \<open>The chunked reader and the whole-body parser\<close>

lemma split_lines_nonempty: "split_lines s \<noteq> []"
proof (induction s rule: split_lines.induct)
  case 1
  show ?case by simp
next
  case (2 c cs)
  show ?case by (cases "split_lines cs") simp_all
qed

lemma split_lines_line:
  "10 \<notin> set a \<Longrightarrow> 13 \<notin> set a \<Longrightarrow> split_lines (a @ 10 # rest) = a # split_lines rest"
  by (induction a) simp_all

lemma split_lines_no_LF: "10 \<notin> set l \<Longrightarrow> split_lines l = [l]"
proof (induction l)
  case Nil
  show ?case by simp
next
  case (Cons c l)
  then have "c \<noteq> 10" "split_lines l = [l]" by simp_all
  moreover have "\<not> (case l of [] \<Rightarrow> False | d # _ \<Rightarrow> d = 10)"
    using Cons.prems by (cases l) simp_all
  ultimately show ?case by simp
qed

lemma last_split_lines_no_LF: "10 \<notin> set (last (split_lines s))"
proof (induction s rule: split_lines.induct)
  case 1
  show ?case by simp
next
  case (2 c cs)
  show ?case
  proof (cases "c = 10")
    case True
    with 2 split_lines_nonempty [of cs] show ?thesis by simp
  next
    case False
    show ?thesis
    proof (cases "c = 13 \<and> (case cs of [] \<Rightarrow> False | d # _ \<Rightarrow> d = 10)")
      case True
      with 2 False split_lines_nonempty [of "tl cs"] show ?thesis by simp
    next
      case b: False
      obtain p ps where ps: "split_lines cs = p # ps"
        using split_lines_nonempty [of cs] by (cases "split_lines cs") auto
      have e: "split_lines (c # cs) = (c # p) # ps" using False b ps by simp
      from 2(3) [OF False b] ps have "10 \<notin> set (last (p # ps))" by simp
      with False show ?thesis unfolding e by (cases ps) simp_all
    qed
  qed
qed

lemma split_lines_first:
  assumes "split_lines (d # ds) = [p]" 
  shows "\<exists>p'. p = d # p'"
proof (cases "d = 10 \<or> (d = 13 \<and> (case ds of [] \<Rightarrow> False | e # _ \<Rightarrow> e = 10))")
  case True
  with assms split_lines_nonempty [of ds] split_lines_nonempty [of "tl ds"] show ?thesis
    by (auto split: if_splits)
next
  case False
  obtain q qs where "split_lines ds = q # qs"
    using split_lines_nonempty [of ds] by (cases "split_lines ds") auto
  with False assms show ?thesis by auto
qed

lemma split_lines_append:
  "split_lines (xs @ ys) =
     butlast (split_lines xs) @ split_lines (last (split_lines xs) @ ys)"
proof (induction xs rule: split_lines.induct)
  case 1
  show ?case by simp
next
  case (2 c cs)
  show ?case
  proof (cases "c = 10")
    case True
    with 2(1) split_lines_nonempty [of cs] show ?thesis by simp
  next
    case False
    show ?thesis
    proof (cases "c = 13 \<and> (case cs of [] \<Rightarrow> False | d # _ \<Rightarrow> d = 10)")
      case True
      then obtain cs' where cs: "cs = 10 # cs'" by (cases cs) auto
      from 2(2) [OF False True] split_lines_nonempty [of cs'] True cs show ?thesis by simp
    next
      case b: False
      obtain p ps where ps: "split_lines cs = p # ps"
        using split_lines_nonempty [of cs] by (cases "split_lines cs") auto
      have e: "split_lines (c # cs) = (c # p) # ps" using False b ps by simp
      note IH = 2(3) [OF False b]
      show ?thesis
      proof (cases "cs = []")
        case True
        then show ?thesis by simp
      next
        case ne: False
        then obtain d ds where cs: "cs = d # ds" by (cases cs) auto
        have b': "\<not> (c = 13 \<and> (case cs @ ys of [] \<Rightarrow> False | d # _ \<Rightarrow> d = 10))"
          using b cs by simp
        obtain q qs where qs: "split_lines (cs @ ys) = q # qs"
          using split_lines_nonempty [of "cs @ ys"] by (cases "split_lines (cs @ ys)") auto
        have l: "split_lines ((c # cs) @ ys) = (c # q) # qs"
          using False b' qs by simp
        show ?thesis
        proof (cases ps)
          case Nil
          with ps cs split_lines_first [of d ds p] obtain p' where p: "p = d # p'" by auto
          from IH ps Nil have i: "split_lines (cs @ ys) = split_lines (p @ ys)" by simp
          have b'': "\<not> (c = 13 \<and> (case p @ ys of [] \<Rightarrow> False | d # _ \<Rightarrow> d = 10))"
            using b cs p by simp
          from i qs have q': "split_lines (p @ ys) = q # qs" by simp
          have "split_lines ((c # p) @ ys) = (c # q) # qs"
            using False b'' q' by simp
          with l e Nil show ?thesis by simp
        next
          case (Cons r rs)
          from IH ps Cons qs have "q # qs = p # butlast (r # rs) @ split_lines (last (r # rs) @ ys)"
            by simp
          with l e Cons show ?thesis by simp
        qed
      qed
    qed
  qed
qed


lemma handleLines_append:
  "handleLines parse extractText (a @ b) st =
     handleLines parse extractText b (handleLines parse extractText a st)"
  by (simp add: handleLines_def)

lemma readChunks_whole:
  assumes "10 \<notin> set buffer"
  shows "readChunks parse extractText chunks buffer st =
     (last (split_lines (buffer @ concat chunks)),
      handleLines parse extractText (butlast (split_lines (buffer @ concat chunks))) st)"
  using assms
proof (induction chunks arbitrary: buffer st)
  case Nil
  then show ?case by (simp add: split_lines_no_LF handleLines_def)
next
  case (Cons chunk chunks)
  let ?lines = "split_lines (buffer @ chunk)"
  let ?rest = "split_lines (last ?lines @ concat chunks)"
  have ne: "?rest \<noteq> []" by (rule split_lines_nonempty)
  have w: "split_lines (buffer @ concat (chunk # chunks)) = butlast ?lines @ ?rest"
    using split_lines_append [of "buffer @ chunk" "concat chunks"] by simp
  have "readChunks parse extractText (chunk # chunks) buffer st =
      readChunks parse extractText chunks (last ?lines)
        (handleLines parse extractText (butlast ?lines) st)"
    by (simp add: Let_def)
  also have "\<dots> = (last ?rest,
      handleLines parse extractText (butlast ?rest)
        (handleLines parse extractText (butlast ?lines) st))"
    by (rule Cons.IH) (rule last_split_lines_no_LF)
  also have "\<dots> = (last (butlast ?lines @ ?rest),
      handleLines parse extractText (butlast (butlast ?lines @ ?rest)) st)"
    using ne by (simp add: butlast_append handleLines_append)
  finally show ?case unfolding w .
qed

text \<open>
  However the body is cut into chunks, \<open>readEventStreamText\<close> ends in the state that
  \<open>parseEventStreamLikeText\<close> reaches on the whole body.
\<close>

lemma readEventStreamText_whole:
  "readEventStreamText parse extractText (Some chunks) =
     Inr (parseEventStreamLikeText parse extractText (concat chunks))"
proof -
  let ?L = "split_lines (concat chunks)"
  have ne: "?L \<noteq> []" by (rule split_lines_nonempty)
  have r: "readChunks parse extractText chunks [] init_parser =
      (last ?L, handleLines parse extractText (butlast ?L) init_parser)"
    using readChunks_whole [of "[]" parse extractText chunks init_parser] by simp
  have "handleLines parse extractText (split_lines (last ?L))
          (handleLines parse extractText (butlast ?L) init_parser) =
        handleLines parse extractText (butlast ?L @ [last ?L]) init_parser"
    by (simp add: handleLines_append split_lines_no_LF [OF last_split_lines_no_LF])
  also have "\<dots> = handleLines parse extractText ?L init_parser"
    using ne by simp
  finally show ?thesis
    by (simp add: readEventStreamText_def parseEventStreamLikeText_def r)
qed

lemma no_break_data_line:
  "10 \<notin> set p \<Longrightarrow> 13 \<notin> set p \<Longrightarrow>
   10 \<notin> set (lit ''data: '' @ p) \<and> 13 \<notin> set (lit ''data: '' @ p)"
  by (simp add: lit_def)

lemma split_lines_two_events:
  assumes "10 \<notin> set p1" "13 \<notin> set p1" "10 \<notin> set p2" "13 \<notin> set p2"
  shows "split_lines (lit ''data: '' @ p1 @ [10, 10] @ lit ''data: '' @ p2 @ [10, 10]) =
         [lit ''data: '' @ p1, [], lit ''data: '' @ p2, [], []]"
proof -
  define l1 where "l1 = lit ''data: '' @ p1"
  define l2 where "l2 = lit ''data: '' @ p2"
  have n1: "10 \<notin> set l1" "13 \<notin> set l1"
    using no_break_data_line [OF assms(1,2)] by (simp_all add: l1_def)
  have n2: "10 \<notin> set l2" "13 \<notin> set l2"
    using no_break_data_line [OF assms(3,4)] by (simp_all add: l2_def)
  have tail: "split_lines [10] = [[], []]" by simp
  have 2: "split_lines (l2 @ 10 # [10]) = [l2, [], []]"
    using split_lines_line [OF n2, of "[10]"] tail by simp
  have 3: "split_lines (10 # l2 @ 10 # [10]) = [[], l2, [], []]"
    using 2 by simp
  have 4: "split_lines (l1 @ 10 # 10 # l2 @ 10 # [10]) = [l1, [], l2, [], []]"
    using split_lines_line [OF n1, of "10 # l2 @ 10 # [10]"] 3 by simp
  have "lit ''data: '' @ p1 @ [10, 10] @ lit ''data: '' @ p2 @ [10, 10] =
      l1 @ 10 # 10 # l2 @ 10 # [10]"
    by (simp add: l1_def l2_def)
  with 4 show ?thesis by (simp add: l1_def l2_def)
qed

text \<open>
  The two events as a body, each closed by an empty line: the whole-body parser, and so
  the chunked reader on every way of cutting the body, ends with the second text.
\<close>

lemma parseEventStreamLikeText_two_events:
  assumes h: "no_outer_space p1 \<and> p1 \<noteq> lit ''[DONE]'' \<and> no_outer_space p2 \<and>
    p2 \<noteq> lit ''[DONE]'' \<and> parse p1 = Some j1 \<and> extractText j1 = Some t1 \<and>
    parse p2 = Some j2 \<and> j2 \<noteq> JNull \<and> extractText j2 = Some t2 \<and> trim t2 \<noteq> [] \<and>
    prefix t1 t2"
    and nb: "10 \<notin> set p1" "13 \<notin> set p1" "10 \<notin> set p2" "13 \<notin> set p2"
  shows "text_acc (parseEventStreamLikeText parse extractText
           (lit ''data: '' @ p1 @ [10, 10] @ lit ''data: '' @ p2 @ [10, 10])) = Some t2"
proof -
  let ?s4 = "handleLines parse extractText
      [lit ''data: '' @ p1, [], lit ''data: '' @ p2, []] init_parser"
  from handleLines_two_events [OF h]
  have t: "text_acc ?s4 = Some t2" and e: "eventDataLines ?s4 = []" by simp_all
  have f: "flushEvent parse extractText ?s4 = ?s4" using e by (simp add: flushEvent_def)
  have b: "handleLine parse extractText [] ?s4 = ?s4" by (simp only: handleLine_blank f)
  have "handleLines parse extractText
      ([lit ''data: '' @ p1, [], lit ''data: '' @ p2, []] @ [[]]) init_parser =
      handleLines parse extractText [[]] ?s4"
    by (rule handleLines_append)
  also have "\<dots> = ?s4" using b by (simp add: handleLines_def)
  finally have five: "handleLines parse extractText
      [lit ''data: '' @ p1, [], lit ''data: '' @ p2, [], []] init_parser = ?s4"
    by simp
  show ?thesis
    by (simp only: parseEventStreamLikeText_def split_lines_two_events [OF nb] five f t)
qed

lemma readEventStreamText_two_events:
  assumes h: "no_outer_space p1 \<and> p1 \<noteq> lit ''[DONE]'' \<and> no_outer_space p2 \<and>
    p2 \<noteq> lit ''[DONE]'' \<and> parse p1 = Some j1 \<and> extractText j1 = Some t1 \<and>
    parse p2 = Some j2 \<and> j2 \<noteq> JNull \<and> extractText j2 = Some t2 \<and> trim t2 \<noteq> [] \<and>
    prefix t1 t2"
    and nb: "10 \<notin> set p1" "13 \<notin> set p1" "10 \<notin> set p2" "13 \<notin> set p2"
    and c: "concat chunks = lit ''data: '' @ p1 @ [10, 10] @ lit ''data: '' @ p2 @ [10, 10]"
  shows "map_sum id text_acc (readEventStreamText parse extractText (Some chunks)) =
         Inr (Some t2)"
  by (simp only: readEventStreamText_whole c parseEventStreamLikeText_two_events [OF h nb]
      map_sum.simps id_apply)

section \<open>Properties of the directive parser\<close>

lemma to_lower_sep: "to_lower c = 64 \<longleftrightarrow> c = 64" "to_lower c = 35 \<longleftrightarrow> c = 35"
  by (auto simp: to_lower_def)

lemma is_level_no_sep:
  assumes "is_level l"
  shows "64 \<notin> set l \<and> 35 \<notin> set l"
proof -
  have "64 \<notin> set (map to_lower l) \<and> 35 \<notin> set (map to_lower l)"
    using assms unfolding is_level_def lit_def by auto
  then show ?thesis by (auto simp: to_lower_sep image_iff)
qed

lemma match_directive_complete:
  assumes "is_level lvl" "sep = 64 \<or> sep = 35" "\<forall>c\<in>set base. \<not> is_line_terminator c"
  shows "match_directive acc (base @ sep # lvl) = Some (acc @ base, lvl)"
  using assms(3)
proof (induction base arbitrary: acc)
  case Nil
  with assms show ?case by simp
next
  case (Cons c base)
  have "\<not> is_level (base @ sep # lvl)"
  proof
    assume "is_level (base @ sep # lvl)"
    from is_level_no_sep [OF this] assms(2) show False by auto
  qed
  with Cons show ?case by simp
qed

lemma match_directive_sound:
  "match_directive acc s = Some (b, l) \<Longrightarrow>
   \<exists>base sep. s = base @ sep # l \<and> (sep = 64 \<or> sep = 35) \<and> is_level l \<and> b = acc @ base"
proof (induction s arbitrary: acc)
  case Nil
  then show ?case by simp
next
  case (Cons c s)
  show ?case
  proof (cases "(c = 64 \<or> c = 35) \<and> is_level s")
    case True
    with Cons.prems show ?thesis by (intro exI [of _ "[]"] exI [of _ c]) auto
  next
    case False
    with Cons.prems have m: "match_directive (acc @ [c]) s = Some (b, l)"
      by (auto split: if_splits)
    from Cons.IH [OF m] obtain base sep where
      "s = base @ sep # l" "sep = 64 \<or> sep = 35" "is_level l" "b = (acc @ [c]) @ base"
      by blast
    then show ?thesis by (intro exI [of _ "c # base"] exI [of _ sep]) auto
  qed
qed

lemma effort_of_level:
  assumes "is_level lvl"
  shows "EFFORT_ALIAS_MAP (map to_lower lvl) =
         Some (if map to_lower lvl = lit ''mini'' then Low
               else if map to_lower lvl = lit ''minimal'' then Low
               else if map to_lower lvl = lit ''low'' then Low
               else if map to_lower lvl = lit ''medium'' then Medium
               else High)"
  using assms unfolding is_level_def EFFORT_ALIAS_MAP_def lit_def by auto

text \<open>
  Claim C9, as the code has it. A model string that is blank after trimming comes back
  unchanged with no effort. A trimmed string that ends in \<open>@level\<close> or \<open>#level\<close> (any
  letter case), with no line terminator before the separator, gives the trimmed base as
  \<open>modelId\<close>, or the whole trimmed string when that base is blank, and the effort
  mini, minimal, low \<mapsto> low, medium \<mapsto> medium, high \<mapsto> high. A trimmed string with no
  such suffix gives itself as \<open>modelId\<close>, with effort medium when it matches a
  reasoning-model hint and no effort otherwise.
\<close>

theorem parseModelDirective_directive:
  "(trim model = [] \<longrightarrow>
      parseModelDirective model = \<lparr>modelId = model, reasoningEffort = None\<rparr>) \<and>
   (trim model = base @ sep # lvl \<and> (sep = 64 \<or> sep = 35) \<and> is_level lvl \<and>
    (\<forall>c\<in>set base. \<not> is_line_terminator c) \<longrightarrow>
      parseModelDirective model =
        \<lparr>modelId = (if trim base = [] then trim model else trim base),
         reasoningEffort =
           Some (if map to_lower lvl = lit ''mini'' then Low
                 else if map to_lower lvl = lit ''minimal'' then Low
                 else if map to_lower lvl = lit ''low'' then Low
                 else if map to_lower lvl = lit ''medium'' then Medium
                 else High)\<rparr>) \<and>
   (trim model \<noteq> [] \<and>
    (\<forall>b s l. trim model = b @ s # l \<longrightarrow> \<not> ((s = 64 \<or> s = 35) \<and> is_level l)) \<longrightarrow>
      parseModelDirective model =
        \<lparr>modelId = trim model,
         reasoningEffort = (if matches_reasoning_hint (trim model) then Some Medium else None)\<rparr>)"
proof (intro conjI impI)
  assume "trim model = []"
  then show "parseModelDirective model = \<lparr>modelId = model, reasoningEffort = None\<rparr>"
    by (simp add: parseModelDirective_def)
next
  assume h: "trim model = base @ sep # lvl \<and> (sep = 64 \<or> sep = 35) \<and> is_level lvl \<and>
    (\<forall>c\<in>set base. \<not> is_line_terminator c)"
  then have m: "match_directive [] (trim model) = Some (base, lvl)"
    using match_directive_complete [of lvl sep base "[]"] by simp
  from h have ne: "trim model \<noteq> []" by simp
  from h have e: "EFFORT_ALIAS_MAP (map to_lower lvl) =
         Some (if map to_lower lvl = lit ''mini'' then Low
               else if map to_lower lvl = lit ''minimal'' then Low
               else if map to_lower lvl = lit ''low'' then Low
               else if map to_lower lvl = lit ''medium'' then Medium
               else High)"
    using effort_of_level by blast
  show "parseModelDirective model =
        \<lparr>modelId = (if trim base = [] then trim model else trim base),
         reasoningEffort =
           Some (if map to_lower lvl = lit ''mini'' then Low
                 else if map to_lower lvl = lit ''minimal'' then Low
                 else if map to_lower lvl = lit ''low'' then Low
                 else if map to_lower lvl = lit ''medium'' then Medium
                 else High)\<rparr>"
    unfolding parseModelDirective_def Let_def using m ne e by simp
next
  assume h: "trim model \<noteq> [] \<and>
    (\<forall>b s l. trim model = b @ s # l \<longrightarrow> \<not> ((s = 64 \<or> s = 35) \<and> is_level l))"
  have "match_directive [] (trim model) = None"
  proof (cases "match_directive [] (trim model)")
    case None
    then show ?thesis .
  next
    case (Some r)
    obtain b l where "r = (b, l)" by (cases r)
    with Some match_directive_sound [of "[]" "trim model" b l] h show ?thesis by blast
  qed
  with h show "parseModelDirective model =
        \<lparr>modelId = trim model,
         reasoningEffort = (if matches_reasoning_hint (trim model) then Some Medium else None)\<rparr>"
    by (simp add: parseModelDirective_def)
qed

lemma no_sep_no_directive:
  "64 \<notin> set t \<Longrightarrow> 35 \<notin> set t \<Longrightarrow>
   \<forall>b s l. t = b @ s # l \<longrightarrow> \<not> ((s = 64 \<or> s = 35) \<and> is_level l)"
  by auto

lemmas string_defs = lit_def trim_def trim_end_def is_js_space_def strip_trailing_slashes_def
  split_base_query_def suffix_to_prefix to_lower_def

theorem parseModelDirective_directive_witness:
  "parseModelDirective (lit ''  '') = \<lparr>modelId = lit ''  '', reasoningEffort = None\<rparr> \<and>
   parseModelDirective (lit ''o1@high'') = \<lparr>modelId = lit ''o1'', reasoningEffort = Some High\<rparr> \<and>
   parseModelDirective (lit ''o1'') = \<lparr>modelId = lit ''o1'', reasoningEffort = Some Medium\<rparr> \<and>
   parseModelDirective (lit ''gpt-4o'') = \<lparr>modelId = lit ''gpt-4o'', reasoningEffort = None\<rparr>"
proof (intro conjI)
  have "trim (lit ''  '') = []" by (simp add: string_defs)
  with parseModelDirective_directive [of "lit ''  ''"]
  show "parseModelDirective (lit ''  '') = \<lparr>modelId = lit ''  '', reasoningEffort = None\<rparr>"
    by blast
next
  have t: "trim (lit ''o1@high'') = lit ''o1'' @ 64 # lit ''high''" by (simp add: string_defs)
  have l: "is_level (lit ''high'')" by (simp add: is_level_def string_defs)
  have n: "\<forall>c\<in>set (lit ''o1''). \<not> is_line_terminator c"
    by (simp add: lit_def is_line_terminator_def)
  have b: "trim (lit ''o1'') = lit ''o1''" by (simp add: string_defs)
  have "parseModelDirective (lit ''o1@high'') =
        \<lparr>modelId = (if trim (lit ''o1'') = [] then trim (lit ''o1@high'') else trim (lit ''o1'')),
         reasoningEffort =
           Some (if map to_lower (lit ''high'') = lit ''mini'' then Low
                 else if map to_lower (lit ''high'') = lit ''minimal'' then Low
                 else if map to_lower (lit ''high'') = lit ''low'' then Low
                 else if map to_lower (lit ''high'') = lit ''medium'' then Medium
                 else High)\<rparr>"
    using parseModelDirective_directive [of "lit ''o1@high''" "lit ''o1''" 64 "lit ''high''"] t l n
    by blast
  then show "parseModelDirective (lit ''o1@high'') =
      \<lparr>modelId = lit ''o1'', reasoningEffort = Some High\<rparr>"
    by (simp add: string_defs)
next
  have t: "trim (lit ''o1'') = lit ''o1''" by (simp add: string_defs)
  have "\<forall>b s l. lit ''o1'' = b @ s # l \<longrightarrow> \<not> ((s = 64 \<or> s = 35) \<and> is_level l)"
    by (rule no_sep_no_directive) (simp_all add: lit_def)
  with t parseModelDirective_directive [of "lit ''o1''"]
  have "parseModelDirective (lit ''o1'') =
        \<lparr>modelId = lit ''o1'',
         reasoningEffort = (if matches_reasoning_hint (lit ''o1'') then Some Medium else None)\<rparr>"
    by (simp add: lit_def)
  moreover have "matches_reasoning_hint (lit ''o1'')"
    by (simp add: matches_reasoning_hint_def string_defs is_word_char_def)
  ultimately show "parseModelDirective (lit ''o1'') =
      \<lparr>modelId = lit ''o1'', reasoningEffort = Some Medium\<rparr>" by simp
next
  have t: "trim (lit ''gpt-4o'') = lit ''gpt-4o''" by (simp add: string_defs)
  have "\<forall>b s l. lit ''gpt-4o'' = b @ s # l \<longrightarrow> \<not> ((s = 64 \<or> s = 35) \<and> is_level l)"
    by (rule no_sep_no_directive) (simp_all add: lit_def)
  with t parseModelDirective_directive [of "lit ''gpt-4o''"]
  have "parseModelDirective (lit ''gpt-4o'') =
        \<lparr>modelId = lit ''gpt-4o'',
         reasoningEffort = (if matches_reasoning_hint (lit ''gpt-4o'') then Some Medium else None)\<rparr>"
    by (simp add: lit_def)
  moreover have "\<not> matches_reasoning_hint (lit ''gpt-4o'')"
    by (simp add: matches_reasoning_hint_def string_defs is_word_char_def)
  ultimately show "parseModelDirective (lit ''gpt-4o'') =
      \<lparr>modelId = lit ''gpt-4o'', reasoningEffort = None\<rparr>" by simp
qed

text \<open>
  The claim as written promises the trimmed base as \<open>modelId\<close> for every string with a
  level suffix. For \<open>@high\<close> the base is empty and the guard \<open>base.trim() || trimmed\<close>
  returns the whole string instead.
\<close>

theorem parseModelDirective_blank_base_counterexample:
  "trim (lit ''@high'') = [] @ 64 # lit ''high'' \<and> is_level (lit ''high'') \<and>
   parseModelDirective (lit ''@high'') =
     \<lparr>modelId = lit ''@high'', reasoningEffort = Some High\<rparr> \<and>
   modelId (parseModelDirective (lit ''@high'')) \<noteq> trim []"
  by (simp add: parseModelDirective_def is_level_def EFFORT_ALIAS_MAP_def string_defs)

text \<open>
  A line terminator before the separator stops the pattern's dot: the suffix stays.
\<close>

lemma parseModelDirective_line_terminator:
  "parseModelDirective (lit ''a'' @ [10] @ lit ''b@high'') =
     \<lparr>modelId = lit ''a'' @ [10] @ lit ''b@high'', reasoningEffort = None\<rparr>"
  by (simp add: parseModelDirective_def is_level_def matches_reasoning_hint_def
      is_line_terminator_def is_word_char_def string_defs)

section \<open>Properties of the URL resolution\<close>

text \<open>
  Claim C8 at an endpoint whose query string holds a second \<open>?\<close>: the query is
  \<open>a=1?b=2\<close>, and both resolvers keep \<open>a=1\<close> only.
\<close>

theorem resolveGeminiUrl_query_cut:
  "url_query (trim (lit ''https://h/v1beta/models?a=1?b=2'')) = lit ''a=1?b=2'' \<and>
   resolveGeminiUrl (lit ''https://h/v1beta/models?a=1?b=2'') (lit ''m'') =
     lit ''https://h/v1beta/models/m:streamGenerateContent?a=1'' \<and>
   resolveGeminiUrlForAction (lit ''https://h/v1beta/models?a=1?b=2'') (lit ''m'')
       StreamGenerateContent =
     lit ''https://h/v1beta/models/m:streamGenerateContent?a=1''"
  by (simp add: resolveGeminiUrl_def resolveGeminiUrlForAction_def url_query_def string_defs)

text \<open>
  With at most one \<open>?\<close> in the trimmed endpoint the resolution is what the claim says:
  the whole query string is kept.
\<close>

lemma split_on_nonempty: "split_on sep s \<noteq> []"
  by (induction s) (auto split: list.splits)

lemma hd_split_on: "hd (split_on sep s) = takeWhile (\<lambda>c. c \<noteq> sep) s"
  using split_on_nonempty [of sep]
  by (induction s) (auto split: list.splits)

lemma split_on_unfold:
  "split_on sep s =
     takeWhile (\<lambda>c. c \<noteq> sep) s #
       (if sep \<in> set s then split_on sep (drop 1 (dropWhile (\<lambda>c. c \<noteq> sep) s)) else [])"
  using split_on_nonempty [of sep]
  by (induction s) (auto split: list.splits)

lemma takeWhile_not_sep: "sep \<notin> set s \<Longrightarrow> takeWhile (\<lambda>c. c \<noteq> sep) s = s"
  by (induction s) auto

lemma dropWhile_not_sep: "sep \<notin> set s \<Longrightarrow> dropWhile (\<lambda>c. c \<noteq> sep) s = []"
  by (induction s) auto

lemma split_base_query_eq:
  "split_base_query s = (url_base s, takeWhile (\<lambda>c. c \<noteq> 63) (url_query s))"
proof (cases "63 \<in> set s")
  case True
  obtain ps where ps: "split_on 63 (drop 1 (dropWhile (\<lambda>c. c \<noteq> 63) s)) =
      takeWhile (\<lambda>c. c \<noteq> 63) (drop 1 (dropWhile (\<lambda>c. c \<noteq> 63) s)) # ps"
    using split_on_unfold [of 63 "drop 1 (dropWhile (\<lambda>c. c \<noteq> 63) s)"] by simp
  from True have "split_on 63 s = takeWhile (\<lambda>c. c \<noteq> 63) s #
      takeWhile (\<lambda>c. c \<noteq> 63) (drop 1 (dropWhile (\<lambda>c. c \<noteq> 63) s)) # ps"
    using split_on_unfold [of 63 s] ps by simp
  then show ?thesis by (simp add: split_base_query_def url_base_def url_query_def)
next
  case False
  have "split_on 63 s = [s]"
    using split_on_unfold [of 63 s] False takeWhile_not_sep [OF False] by simp
  then show ?thesis
    by (simp add: split_base_query_def url_base_def url_query_def
        takeWhile_not_sep [OF False] dropWhile_not_sep [OF False])
qed

lemma resolveGeminiUrl_single_query:
  assumes "63 \<notin> set (url_query (trim endpoint))"
  shows "resolveGeminiUrl endpoint model =
    (if js_includes (trim endpoint) (lit '':streamGenerateContent'') then trim endpoint
     else if suffix (lit ''/v1beta/models'') (strip_trailing_slashes (url_base (trim endpoint)))
       then strip_trailing_slashes (url_base (trim endpoint)) @ lit ''/'' @ model @
            lit '':streamGenerateContent'' @
            (if url_query (trim endpoint) = [] then [] else lit ''?'' @ url_query (trim endpoint))
     else trim endpoint)"
  by (simp add: resolveGeminiUrl_def Let_def split_base_query_eq takeWhile_not_sep [OF assms])

lemma resolveGeminiUrlForAction_stream:
  "resolveGeminiUrlForAction endpoint model StreamGenerateContent = resolveGeminiUrl endpoint model"
  by (simp add: resolveGeminiUrlForAction_def resolveGeminiUrl_def Let_def lit_def
      split: prod.splits)

text \<open>
  For an endpoint that names no action and whose base ends in \<open>/v1beta/models\<close>, the
  URL of either action is the same base, model and query around the action's name.
\<close>

lemma resolveGeminiUrlForAction_models_base:
  assumes "\<not> js_includes (trim endpoint) (lit '':streamGenerateContent'')"
    and "\<not> js_includes (trim endpoint) (lit '':generateContent'')"
    and "suffix (lit ''/v1beta/models'') (strip_trailing_slashes (url_base (trim endpoint)))"
  shows "resolveGeminiUrlForAction endpoint model action =
     strip_trailing_slashes (url_base (trim endpoint)) @ lit ''/'' @ model @ lit '':'' @
     action_name action @
     (if takeWhile (\<lambda>c. c \<noteq> 63) (url_query (trim endpoint)) = [] then []
      else lit ''?'' @ takeWhile (\<lambda>c. c \<noteq> 63) (url_query (trim endpoint)))"
  using assms by (simp add: resolveGeminiUrlForAction_def Let_def split_base_query_eq)

section \<open>Properties of the request headers\<close>

lemma headers_get_set:
  "headers_set h k v = Some h' \<Longrightarrow>
   headers_get h' name =
     (if map to_lower name = map to_lower k then Some (normalize_value v) else headers_get h name)"
  by (auto simp: headers_get_def headers_set_def Let_def split: if_splits)

lemma headers_set_accepts:
  "headers_set h k v \<noteq> None \<longleftrightarrow> valid_header_name k \<and> valid_header_value (normalize_value v)"
  by (simp add: headers_set_def Let_def)

lemma set_entries_accepts: "set_entries h es \<noteq> None \<longleftrightarrow> entries_accepted es"
proof (induction es arbitrary: h)
  case Nil
  show ?case by (simp add: entries_accepted_def)
next
  case (Cons a es)
  obtain key v where a: "a = (key, v)" by (cases a)
  show ?case
  proof (cases "headers_set h key v")
    case None
    then have "\<not> (valid_header_name key \<and> valid_header_value (normalize_value v))"
      using headers_set_accepts [of h key v] by simp
    with None show ?thesis by (auto simp: a entries_accepted_def)
  next
    case (Some h')
    then have "valid_header_name key \<and> valid_header_value (normalize_value v)"
      using headers_set_accepts [of h key v] by simp
    with Some Cons.IH [of h'] show ?thesis by (simp add: a entries_accepted_def)
  qed
qed

lemma last_entry_Cons:
  "last_entry ((key, v) # es) name =
     (case last_entry es name of
        Some w \<Rightarrow> Some w
      | None \<Rightarrow> if map to_lower name = map to_lower key then Some v else None)"
  by (auto simp: last_entry_def map_add_def split: option.splits)

lemma set_entries_get:
  "set_entries h es = Some h' \<Longrightarrow>
   headers_get h' name =
     (case last_entry es name of
        Some v \<Rightarrow> Some (normalize_value v)
      | None \<Rightarrow> headers_get h name)"
proof (induction es arbitrary: h)
  case Nil
  then show ?case by (simp add: last_entry_def)
next
  case (Cons a es)
  obtain key v where a: "a = (key, v)" by (cases a)
  from Cons.prems obtain h1 where
    s: "headers_set h key v = Some h1" and r: "set_entries h1 es = Some h'"
    by (auto simp: a split: option.splits)
  from Cons.IH [OF r] headers_get_set [OF s, of name]
  show ?case by (simp add: a last_entry_Cons split: option.splits)
qed

lemma lower_names:
  "map to_lower (lit ''Authorization'') = lit ''authorization''"
  "map to_lower (lit ''Content-Type'') = lit ''content-type''"
  "map to_lower (lit ''User-Agent'') = lit ''user-agent''"
  "map to_lower (lit ''Accept'') = lit ''accept''"
  "lit ''authorization'' \<noteq> lit ''content-type''"
  "lit ''accept'' \<noteq> lit ''content-type''"
  "lit ''accept'' \<noteq> lit ''authorization''"
  "lit ''user-agent'' \<noteq> lit ''content-type''"
  "lit ''user-agent'' \<noteq> lit ''authorization''"
  "lit ''user-agent'' \<noteq> lit ''accept''"
  "lit ''content-type'' \<noteq> lit ''authorization''"
  "lit ''content-type'' \<noteq> lit ''accept''"
  "lit ''authorization'' \<noteq> lit ''accept''"
  by (simp_all add: lit_def to_lower_def)

lemma fixed_values:
  "normalize_value (lit ''application/json'') = lit ''application/json''"
  "normalize_value (lit ''check-cx/0.1.0'') = lit ''check-cx/0.1.0''"
  "normalize_value (lit ''application/json, text/event-stream'') =
     lit ''application/json, text/event-stream''"
  "valid_header_value (lit ''application/json'')"
  "valid_header_value (lit ''check-cx/0.1.0'')"
  "valid_header_value (lit ''application/json, text/event-stream'')"
  "valid_header_name (lit ''Authorization'')"
  "valid_header_name (lit ''Content-Type'')"
  "valid_header_name (lit ''User-Agent'')"
  "valid_header_name (lit ''Accept'')"
  by (simp_all add: normalize_value_def is_http_whitespace_def valid_header_value_def
      valid_header_name_def is_tchar_def lit_def)

text \<open>The three initial headers.\<close>

lemma initial_headers:
  "set_entries Map.empty
      [(lit ''Authorization'', a), (lit ''Content-Type'', lit ''application/json''),
       (lit ''User-Agent'', lit ''check-cx/0.1.0'')] = Some h0 \<Longrightarrow>
   valid_header_value (normalize_value a) \<and>
   headers_get h0 name =
     (if map to_lower name = lit ''user-agent'' then Some (lit ''check-cx/0.1.0'')
      else if map to_lower name = lit ''content-type'' then Some (lit ''application/json'')
      else if map to_lower name = lit ''authorization'' then Some (normalize_value a)
      else None)"
  by (auto simp: headers_set_def headers_get_def Let_def lower_names fixed_values
      split: option.splits if_splits)

lemma initial_headers_accepts:
  "set_entries Map.empty
      [(lit ''Authorization'', a), (lit ''Content-Type'', lit ''application/json''),
       (lit ''User-Agent'', lit ''check-cx/0.1.0'')] \<noteq> None \<longleftrightarrow>
   valid_header_value (normalize_value a)"
  using set_entries_accepts [of Map.empty
      "[(lit ''Authorization'', a), (lit ''Content-Type'', lit ''application/json''),
       (lit ''User-Agent'', lit ''check-cx/0.1.0'')]"]
  by (simp add: entries_accepted_def fixed_values)

lemma normalize_value_fixed:
  assumes "v \<noteq> []" "\<not> is_http_whitespace (hd v)" "\<not> is_http_whitespace (last v)"
  shows "normalize_value v = v"
proof -
  from assms have d: "dropWhile is_http_whitespace v = v" by (cases v) simp_all
  from assms have "dropWhile is_http_whitespace (rev v) = rev v"
    by (cases v rule: rev_cases) simp_all
  with d show ?thesis by (simp add: normalize_value_def)
qed

lemma bearer_unchanged:
  assumes "apiKey \<noteq> []" "\<not> is_http_whitespace (last apiKey)"
  shows "normalize_value (lit ''Bearer '' @ apiKey) = lit ''Bearer '' @ apiKey"
  using assms by (intro normalize_value_fixed) (simp_all add: lit_def is_http_whitespace_def)

lemma headers_set_accepts_ex:
  "(\<exists>y. headers_set h k v = Some y) \<longleftrightarrow>
   valid_header_name k \<and> valid_header_value (normalize_value v)"
  by (simp add: headers_set_def Let_def)

lemma requestGeminiNative_headers_steps:
  assumes "requestGeminiNative_headers apiKey requestHeaders = Some h"
  obtains h0 h1 h2 where
    "set_entries Map.empty
       [(lit ''Authorization'', lit ''Bearer '' @ apiKey),
        (lit ''Content-Type'', lit ''application/json''),
        (lit ''User-Agent'', lit ''check-cx/0.1.0'')] = Some h0"
    "set_entries h0 (case requestHeaders of None \<Rightarrow> [] | Some es \<Rightarrow> es) = Some h1"
    "headers_set h1 (lit ''Authorization'') (lit ''Bearer '' @ apiKey) = Some h2"
    "headers_set h2 (lit ''Content-Type'') (lit ''application/json'') = Some h"
  using assms unfolding requestGeminiNative_headers_def by (auto split: option.splits)

lemma requestGeminiNative_headers_action_steps:
  assumes "requestGeminiNative_headers_action apiKey requestHeaders action = Some h"
  obtains h3 where
    "requestGeminiNative_headers apiKey requestHeaders = Some h3"
    "headers_set h3 (lit ''Accept'')
       (if action = Some GenerateContent then lit ''application/json''
        else lit ''application/json, text/event-stream'') = Some h"
proof -
  from assms obtain h3 where
    a: "requestGeminiNative_headers apiKey requestHeaders = Some h3" and
    b: "headers_set h3 (lit ''Accept'')
       (if (case action of None \<Rightarrow> StreamGenerateContent | Some a \<Rightarrow> a) = StreamGenerateContent
        then lit ''application/json, text/event-stream''
        else lit ''application/json'') = Some h"
    unfolding requestGeminiNative_headers_action_def requestGeminiNative_headers_def Let_def
    by (auto split: option.splits)
  have "(if (case action of None \<Rightarrow> StreamGenerateContent | Some a \<Rightarrow> a) = StreamGenerateContent
        then lit ''application/json, text/event-stream''
        else lit ''application/json'') =
       (if action = Some GenerateContent then lit ''application/json''
        else lit ''application/json, text/event-stream'')"
    by (cases action; cases "the action") simp_all
  with a b that show ?thesis by simp
qed

lemma requestGeminiNative_headers_accepts:
  "requestGeminiNative_headers apiKey requestHeaders \<noteq> None \<longleftrightarrow>
   valid_header_value (normalize_value (lit ''Bearer '' @ apiKey)) \<and>
   entries_accepted (case requestHeaders of None \<Rightarrow> [] | Some es \<Rightarrow> es)"
proof -
  let ?init = "set_entries Map.empty
       [(lit ''Authorization'', lit ''Bearer '' @ apiKey),
        (lit ''Content-Type'', lit ''application/json''),
        (lit ''User-Agent'', lit ''check-cx/0.1.0'')]"
  let ?es = "case requestHeaders of None \<Rightarrow> [] | Some es \<Rightarrow> es"
  show ?thesis
  proof (cases ?init)
    case None
    with initial_headers_accepts [of "lit ''Bearer '' @ apiKey"]
    show ?thesis by (simp add: requestGeminiNative_headers_def)
  next
    case h0: (Some h0)
    with initial_headers_accepts [of "lit ''Bearer '' @ apiKey"]
    have v: "valid_header_value (normalize_value (lit ''Bearer '' @ apiKey))" by simp
    show ?thesis
    proof (cases "set_entries h0 ?es")
      case None
      with set_entries_accepts [of h0 ?es] h0 show ?thesis
        by (simp add: requestGeminiNative_headers_def)
    next
      case h1: (Some h1)
      with set_entries_accepts [of h0 ?es] have e: "entries_accepted ?es" by simp
      obtain h2 where h2: "headers_set h1 (lit ''Authorization'') (lit ''Bearer '' @ apiKey) = Some h2"
        using headers_set_accepts [of h1 "lit ''Authorization''" "lit ''Bearer '' @ apiKey"] v
        by (auto simp: fixed_values)
      have "headers_set h2 (lit ''Content-Type'') (lit ''application/json'') \<noteq> None"
        by (simp add: headers_set_accepts_ex fixed_values)
      with h0 h1 h2 v e show ?thesis
        by (simp add: requestGeminiNative_headers_def)
    qed
  qed
qed

lemma requestGeminiNative_headers_action_step:
  "requestGeminiNative_headers_action apiKey requestHeaders action =
     (case requestGeminiNative_headers apiKey requestHeaders of
        None \<Rightarrow> None
      | Some h3 \<Rightarrow>
          headers_set h3 (lit ''Accept'')
            (if (case action of None \<Rightarrow> StreamGenerateContent | Some a \<Rightarrow> a) =
                StreamGenerateContent
             then lit ''application/json, text/event-stream''
             else lit ''application/json''))"
  by (simp add: requestGeminiNative_headers_action_def requestGeminiNative_headers_def Let_def
      split: option.splits)

lemma requestGeminiNative_headers_action_accepts:
  "requestGeminiNative_headers_action apiKey requestHeaders action \<noteq> None \<longleftrightarrow>
   requestGeminiNative_headers apiKey requestHeaders \<noteq> None"
proof (cases "requestGeminiNative_headers apiKey requestHeaders")
  case None
  then show ?thesis by (simp add: requestGeminiNative_headers_action_step)
next
  case (Some h3)
  have "headers_set h3 (lit ''Accept'')
      (if (case action of None \<Rightarrow> StreamGenerateContent | Some a \<Rightarrow> a) = StreamGenerateContent
       then lit ''application/json, text/event-stream''
       else lit ''application/json'') \<noteq> None"
    by (simp add: headers_set_accepts_ex fixed_values)
  with Some show ?thesis by (simp add: requestGeminiNative_headers_action_step)
qed

lemma requestGeminiNative_headers_get:
  assumes "requestGeminiNative_headers apiKey requestHeaders = Some h"
  shows "headers_get h name =
     (if map to_lower name = lit ''content-type'' then Some (lit ''application/json'')
      else if map to_lower name = lit ''authorization''
        then Some (normalize_value (lit ''Bearer '' @ apiKey))
      else (case last_entry (case requestHeaders of None \<Rightarrow> [] | Some es \<Rightarrow> es) name of
              Some v \<Rightarrow> Some (normalize_value v)
            | None \<Rightarrow> if map to_lower name = lit ''user-agent''
                      then Some (lit ''check-cx/0.1.0'') else None))"
proof -
  from assms obtain h0 h1 h2 where
    0: "set_entries Map.empty
       [(lit ''Authorization'', lit ''Bearer '' @ apiKey),
        (lit ''Content-Type'', lit ''application/json''),
        (lit ''User-Agent'', lit ''check-cx/0.1.0'')] = Some h0" and
    1: "set_entries h0 (case requestHeaders of None \<Rightarrow> [] | Some es \<Rightarrow> es) = Some h1" and
    2: "headers_set h1 (lit ''Authorization'') (lit ''Bearer '' @ apiKey) = Some h2" and
    3: "headers_set h2 (lit ''Content-Type'') (lit ''application/json'') = Some h"
    by (rule requestGeminiNative_headers_steps)
  note g0 = conjunct2 [OF initial_headers [OF 0, of name]]
  note g1 = set_entries_get [OF 1, of name]
  note g2 = headers_get_set [OF 2, of name]
  note g3 = headers_get_set [OF 3, of name]
  show ?thesis
    unfolding g3 g2 g1 g0
    by (simp add: lower_names fixed_values split: option.splits)
qed

text \<open>
  Claim C10, as the code has it. \<open>Headers\<close> accepts the construction exactly when the
  stripped \<open>Bearer\<close> value and every user-supplied entry are valid; otherwise a
  \<open>TypeError\<close> ends the call and no request goes out. When it is accepted, the request
  carries \<open>Authorization\<close> with the value \<open>Bearer <apiKey>\<close> stripped of outer HTTP white
  space, which is \<open>Bearer\<close>, a space and the key itself when the key is not empty and
  does not end in HTTP white space, and \<open>Content-Type: application/json\<close>, whatever the
  user supplied for these names. Every other header name carries the last value the user
  supplied for it, stripped, and otherwise the default (\<open>User-Agent\<close>) or nothing; in
  the later revision this holds for the names other than \<open>Accept\<close>, which is forced
  from the action as well.
\<close>

theorem requestGeminiNative_forced_headers:
  "(requestGeminiNative_headers apiKey requestHeaders \<noteq> None \<longleftrightarrow>
      valid_header_value (normalize_value (lit ''Bearer '' @ apiKey)) \<and>
      entries_accepted (case requestHeaders of None \<Rightarrow> [] | Some es \<Rightarrow> es)) \<and>
   (requestGeminiNative_headers_action apiKey requestHeaders action \<noteq> None \<longleftrightarrow>
      valid_header_value (normalize_value (lit ''Bearer '' @ apiKey)) \<and>
      entries_accepted (case requestHeaders of None \<Rightarrow> [] | Some es \<Rightarrow> es)) \<and>
   (apiKey \<noteq> [] \<and> \<not> is_http_whitespace (last apiKey) \<longrightarrow>
      normalize_value (lit ''Bearer '' @ apiKey) = lit ''Bearer '' @ apiKey) \<and>
   (requestGeminiNative_headers apiKey requestHeaders = Some h \<longrightarrow>
      headers_get h (lit ''Authorization'') = Some (normalize_value (lit ''Bearer '' @ apiKey)) \<and>
      headers_get h (lit ''Content-Type'') = Some (lit ''application/json'') \<and>
      (map to_lower name \<noteq> lit ''authorization'' \<and> map to_lower name \<noteq> lit ''content-type'' \<longrightarrow>
         headers_get h name =
           (case last_entry (case requestHeaders of None \<Rightarrow> [] | Some es \<Rightarrow> es) name of
              Some v \<Rightarrow> Some (normalize_value v)
            | None \<Rightarrow> if map to_lower name = lit ''user-agent''
                      then Some (lit ''check-cx/0.1.0'') else None))) \<and>
   (requestGeminiNative_headers_action apiKey requestHeaders action = Some h' \<longrightarrow>
      headers_get h' (lit ''Authorization'') = Some (normalize_value (lit ''Bearer '' @ apiKey)) \<and>
      headers_get h' (lit ''Content-Type'') = Some (lit ''application/json'') \<and>
      headers_get h' (lit ''Accept'') =
        Some (if action = Some GenerateContent then lit ''application/json''
              else lit ''application/json, text/event-stream'') \<and>
      (map to_lower name \<noteq> lit ''authorization'' \<and> map to_lower name \<noteq> lit ''content-type'' \<and>
       map to_lower name \<noteq> lit ''accept'' \<longrightarrow>
         headers_get h' name =
           (case last_entry (case requestHeaders of None \<Rightarrow> [] | Some es \<Rightarrow> es) name of
              Some v \<Rightarrow> Some (normalize_value v)
            | None \<Rightarrow> if map to_lower name = lit ''user-agent''
                      then Some (lit ''check-cx/0.1.0'') else None)))"
proof (intro conjI impI)
  show "requestGeminiNative_headers apiKey requestHeaders \<noteq> None \<longleftrightarrow>
      valid_header_value (normalize_value (lit ''Bearer '' @ apiKey)) \<and>
      entries_accepted (case requestHeaders of None \<Rightarrow> [] | Some es \<Rightarrow> es)"
    by (rule requestGeminiNative_headers_accepts)
  show "requestGeminiNative_headers_action apiKey requestHeaders action \<noteq> None \<longleftrightarrow>
      valid_header_value (normalize_value (lit ''Bearer '' @ apiKey)) \<and>
      entries_accepted (case requestHeaders of None \<Rightarrow> [] | Some es \<Rightarrow> es)"
    by (simp only: requestGeminiNative_headers_action_accepts requestGeminiNative_headers_accepts)
next
  assume "apiKey \<noteq> [] \<and> \<not> is_http_whitespace (last apiKey)"
  then show "normalize_value (lit ''Bearer '' @ apiKey) = lit ''Bearer '' @ apiKey"
    by (simp add: bearer_unchanged)
next
  assume s: "requestGeminiNative_headers apiKey requestHeaders = Some h"
  show "headers_get h (lit ''Authorization'') = Some (normalize_value (lit ''Bearer '' @ apiKey))"
    by (simp add: requestGeminiNative_headers_get [OF s] lower_names)
  show "headers_get h (lit ''Content-Type'') = Some (lit ''application/json'')"
    by (simp add: requestGeminiNative_headers_get [OF s] lower_names)
  assume "map to_lower name \<noteq> lit ''authorization'' \<and> map to_lower name \<noteq> lit ''content-type''"
  then show "headers_get h name =
           (case last_entry (case requestHeaders of None \<Rightarrow> [] | Some es \<Rightarrow> es) name of
              Some v \<Rightarrow> Some (normalize_value v)
            | None \<Rightarrow> if map to_lower name = lit ''user-agent''
                      then Some (lit ''check-cx/0.1.0'') else None)"
    by (simp add: requestGeminiNative_headers_get [OF s])
next
  assume s: "requestGeminiNative_headers_action apiKey requestHeaders action = Some h'"
  then obtain h3 where
    3: "requestGeminiNative_headers apiKey requestHeaders = Some h3" and
    4: "headers_set h3 (lit ''Accept'')
       (if action = Some GenerateContent then lit ''application/json''
        else lit ''application/json, text/event-stream'') = Some h'"
    by (rule requestGeminiNative_headers_action_steps)
  note g = headers_get_set [OF 4] requestGeminiNative_headers_get [OF 3]
  show "headers_get h' (lit ''Authorization'') = Some (normalize_value (lit ''Bearer '' @ apiKey))"
    by (simp add: g lower_names)
  show "headers_get h' (lit ''Content-Type'') = Some (lit ''application/json'')"
    by (simp add: g lower_names)
  show "headers_get h' (lit ''Accept'') =
        Some (if action = Some GenerateContent then lit ''application/json''
              else lit ''application/json, text/event-stream'')"
    by (simp add: g lower_names fixed_values)
  assume "map to_lower name \<noteq> lit ''authorization'' \<and> map to_lower name \<noteq> lit ''content-type'' \<and>
       map to_lower name \<noteq> lit ''accept''"
  then show "headers_get h' name =
           (case last_entry (case requestHeaders of None \<Rightarrow> [] | Some es \<Rightarrow> es) name of
              Some v \<Rightarrow> Some (normalize_value v)
            | None \<Rightarrow> if map to_lower name = lit ''user-agent''
                      then Some (lit ''check-cx/0.1.0'') else None)"
    by (simp add: g lower_names)
qed

lemmas header_defs = requestGeminiNative_headers_def requestGeminiNative_headers_action_def
  headers_set_def headers_get_def last_entry_def normalize_value_def is_http_whitespace_def
  valid_header_name_def valid_header_value_def is_tchar_def entries_accepted_def
  lit_def to_lower_def Let_def

theorem requestGeminiNative_forced_headers_witness:
  "map to_lower (lit ''X-Trace'') \<noteq> lit ''authorization'' \<and>
   map to_lower (lit ''X-Trace'') \<noteq> lit ''content-type'' \<and>
   map to_lower (lit ''X-Trace'') \<noteq> lit ''accept'' \<and>
   lit ''k'' \<noteq> [] \<and> \<not> is_http_whitespace (last (lit ''k'')) \<and>
   map_option (\<lambda>h. (headers_get h (lit ''Authorization''), headers_get h (lit ''Content-Type''),
                    headers_get h (lit ''X-Trace'')))
     (requestGeminiNative_headers (lit ''k'')
        (Some [(lit ''authorization'', lit ''Basic x''), (lit ''X-Trace'', lit '' 1 '')])) =
     Some (Some (lit ''Bearer k''), Some (lit ''application/json''), Some (lit ''1'')) \<and>
   map_option (\<lambda>h. (headers_get h (lit ''Authorization''), headers_get h (lit ''Accept''),
                    headers_get h (lit ''X-Trace'')))
     (requestGeminiNative_headers_action (lit ''k'')
        (Some [(lit ''authorization'', lit ''Basic x''), (lit ''X-Trace'', lit '' 1 '')])
        (Some GenerateContent)) =
     Some (Some (lit ''Bearer k''), Some (lit ''application/json''), Some (lit ''1''))"
proof -
  let ?rh = "Some [(lit ''authorization'', lit ''Basic x''), (lit ''X-Trace'', lit '' 1 '')]"
  have n: "map to_lower (lit ''X-Trace'') \<noteq> lit ''authorization''"
    "map to_lower (lit ''X-Trace'') \<noteq> lit ''content-type''"
    "map to_lower (lit ''X-Trace'') \<noteq> lit ''accept''"
    by (simp_all add: lit_def to_lower_def)
  have k: "lit ''k'' \<noteq> []" "\<not> is_http_whitespace (last (lit ''k''))"
    by (simp_all add: lit_def is_http_whitespace_def)
  have v: "valid_header_value (normalize_value (lit ''Bearer '' @ lit ''k''))"
    by (simp add: header_defs)
  have e: "entries_accepted
      [(lit ''authorization'', lit ''Basic x''), (lit ''X-Trace'', lit '' 1 '')]"
    by (simp add: header_defs)
  have l: "last_entry [(lit ''authorization'', lit ''Basic x''), (lit ''X-Trace'', lit '' 1 '')]
      (lit ''X-Trace'') = Some (lit '' 1 '')"
    by (simp add: last_entry_def lit_def to_lower_def)
  have s: "normalize_value (lit '' 1 '') = lit ''1''" by (simp add: header_defs)
  have b: "lit ''Bearer '' @ lit ''k'' = lit ''Bearer k''" by (simp add: lit_def)
  note t = requestGeminiNative_forced_headers [where apiKey = "lit ''k''" and requestHeaders = ?rh
      and name = "lit ''X-Trace''" and action = "Some GenerateContent"]
  from t v e obtain h where h: "requestGeminiNative_headers (lit ''k'') ?rh = Some h"
    by auto
  from t v e obtain h' where h': "requestGeminiNative_headers_action (lit ''k'') ?rh
      (Some GenerateContent) = Some h'"
    by auto
  from t [of h h'] h h' n k l s b
  have "headers_get h (lit ''Authorization'') = Some (lit ''Bearer k'') \<and>
        headers_get h (lit ''Content-Type'') = Some (lit ''application/json'') \<and>
        headers_get h (lit ''X-Trace'') = Some (lit ''1'') \<and>
        headers_get h' (lit ''Authorization'') = Some (lit ''Bearer k'') \<and>
        headers_get h' (lit ''Accept'') = Some (lit ''application/json'') \<and>
        headers_get h' (lit ''X-Trace'') = Some (lit ''1'')"
    by simp
  with h h' n k show ?thesis by simp
qed

text \<open>
  The claim as written has \<open>Authorization\<close> equal to \<open>Bearer\<close>, a space and the key for
  every key, and lets every user-supplied entry other than the two forced names through.
  An empty key gives \<open>Bearer\<close> with no space, a key that ends in white space loses it,
  and in the later revision a user-supplied \<open>Accept\<close> is overwritten.
\<close>

theorem requestGeminiNative_accept_counterexample:
  "map_option (\<lambda>h. headers_get h (lit ''Authorization'')) (requestGeminiNative_headers [] None) =
     Some (Some (lit ''Bearer'')) \<and>
   lit ''Bearer'' \<noteq> lit ''Bearer '' @ [] \<and>
   map_option (\<lambda>h. headers_get h (lit ''Authorization''))
     (requestGeminiNative_headers (lit ''k'' @ [32, 10]) None) = Some (Some (lit ''Bearer k'')) \<and>
   lit ''Bearer k'' \<noteq> lit ''Bearer '' @ lit ''k'' @ [32, 10] \<and>
   map to_lower (lit ''Accept'') \<noteq> lit ''authorization'' \<and>
   map to_lower (lit ''Accept'') \<noteq> lit ''content-type'' \<and>
   last_entry [(lit ''Accept'', lit ''text/plain'')] (lit ''Accept'') = Some (lit ''text/plain'') \<and>
   map_option (\<lambda>h. headers_get h (lit ''Accept''))
     (requestGeminiNative_headers_action (lit ''k'')
        (Some [(lit ''Accept'', lit ''text/plain'')]) (Some StreamGenerateContent)) =
     Some (Some (lit ''application/json, text/event-stream''))"
  by (simp add: header_defs)

text \<open>A user-supplied name that is no token ends the call with a \<open>TypeError\<close>.\<close>

lemma requestGeminiNative_headers_invalid_name:
  "requestGeminiNative_headers (lit ''k'') (Some [(lit ''X Y'', lit ''1'')]) = None"
  by (simp add: header_defs)

section \<open>Properties of the provider checks\<close>

lemma buildCheckResult_fields [simp]:
  "status (buildCheckResult env config endpoint ping st latency msg) = st"
  "latencyMs (buildCheckResult env config endpoint ping st latency msg) = latency"
  "pingLatencyMs (buildCheckResult env config endpoint ping st latency msg) = ping"
  "message (buildCheckResult env config endpoint ping st latency msg) = msg"
  by (simp_all add: buildCheckResult_def)

lemma grade_reply_latency:
  "latencyMs (grade_reply validateResponse threshold env
      (buildCheckResult env config endpoint ping) reply) = Some (finishedAt env - startedAt env)"
  by (simp add: grade_reply_def Let_def)

lemma grade_reply_valid:
  assumes "trim reply \<noteq> []" "valid (validateResponse reply (expectedAnswer env))"
  shows "grade_reply validateResponse threshold env toResult reply =
     (if finishedAt env - startedAt env \<le> threshold
      then toResult Operational (Some (finishedAt env - startedAt env))
             (msg_passed (finishedAt env - startedAt env))
      else toResult Degraded (Some (finishedAt env - startedAt env))
             (msg_slow (finishedAt env - startedAt env)))"
  using assms by (simp add: grade_reply_def Let_def)

lemma grade_reply_empty:
  "trim reply = [] \<Longrightarrow>
   grade_reply validateResponse threshold env toResult reply =
     toResult Failed (Some (finishedAt env - startedAt env)) MSG_EMPTY_REPLY"
  by (simp add: grade_reply_def Let_def)

lemma grade_reply_ping:
  "grade_reply validateResponse threshold (env\<lparr>pingResult := p\<rparr>)
     (buildCheckResult (env\<lparr>pingResult := p\<rparr>) config endpoint p) reply =
   (grade_reply validateResponse threshold env
     (buildCheckResult env config endpoint q) reply)\<lparr>pingLatencyMs := p\<rparr>"
  by (simp add: grade_reply_def Let_def buildCheckResult_def)

lemma digits_value_snoc: "digits_value (ds @ [c]) = 10 * digits_value ds + (c - 48)"
  by (simp add: digits_value_def)

lemma dec_nat_digits: "dec_nat n \<noteq> [] \<and> list_all is_digit (dec_nat n) \<and> digits_value (dec_nat n) = n"
proof (induction n rule: dec_nat.induct)
  case (1 n)
  show ?case
  proof (cases "n < 10")
    case True
    then show ?thesis
      by (subst (1 2 3) dec_nat.simps) (simp add: is_digit_def digits_value_def)
  next
    case False
    with 1 have IH: "dec_nat (n div 10) \<noteq> []" "list_all is_digit (dec_nat (n div 10))"
      "digits_value (dec_nat (n div 10)) = n div 10" by simp_all
    have m: "n mod 10 < 10" by simp
    have e: "dec_nat n = dec_nat (n div 10) @ [48 + n mod 10]"
      using False by (subst dec_nat.simps) simp
    from m have d: "is_digit (48 + n mod 10)" by (simp add: is_digit_def)
    show ?thesis
      unfolding e using IH d by (simp add: digits_value_snoc)
  qed
qed

lemma dec_nat_no_minus: "hd (dec_nat n) \<noteq> 45"
proof -
  from dec_nat_digits [of n] obtain c cs where e: "dec_nat n = c # cs" and "is_digit c"
    by (cases "dec_nat n") auto
  then show ?thesis by (simp add: is_digit_def)
qed

text \<open>The string the code prints for a number reads back as that number.\<close>

lemma read_decimal_js_int_to_string: "read_decimal (js_int_to_string i) = Some i"
proof (cases "i < 0")
  case True
  with dec_nat_digits [of "nat (- i)"] show ?thesis
    by (simp add: read_decimal_def js_int_to_string_def)
next
  case False
  from dec_nat_digits [of "nat i"] dec_nat_no_minus [of "nat i"]
  obtain c cs where e: "dec_nat (nat i) = c # cs" and c: "c \<noteq> 45"
    by (cases "dec_nat (nat i)") auto
  with False dec_nat_digits [of "nat i"] show ?thesis
    by (simp add: read_decimal_def js_int_to_string_def)
qed

text \<open>
  Claim C1. A reply that is not blank and passes validation gives \<open>operational\<close> up to
  6000 ms of elapsed time and \<open>degraded\<close> above, with \<open>latencyMs\<close> the elapsed time. The
  message is the fixed text of the status around the elapsed time in decimal, followed by
  \<open>ms\<close>; the decimal string reads back as the elapsed time. This holds for
  \<open>checkWithAiSdk\<close>, for \<open>checkWithGeminiNative\<close> in its first revision and in
  \<open>gemini-native.ts\<close>, and for the later revision with the threshold at its default,
  whichever of its requests delivered the reply. \<open>checkGemini\<close> grades no reply: a stream
  read to its end gives the same status and \<open>latencyMs\<close>, and a message of its own for
  \<open>operational\<close> that states the elapsed time in the same way.
\<close>

theorem valid_reply_status:
  "trim reply \<noteq> [] \<and> valid (validateResponse reply (expectedAnswer env)) \<longrightarrow>
   (let elapsed = finishedAt env - startedAt env;
        expected_status = (if elapsed \<le> 6000 then Operational else Degraded);
        expected_message =
          (if elapsed \<le> 6000
           then [39564, 35777, 36890, 36807, 32, 40] @ js_int_to_string elapsed @ lit ''ms)''
           else [21709, 24212, 25104, 21151, 20294, 32791, 26102, 32] @
                js_int_to_string elapsed @ lit ''ms'');
        r1 = checkWithAiSdk DEFAULT_ENDPOINTS validateResponse env config (Inr reply);
        r2 = checkWithGeminiNative errorMessage default_gemini validateResponse env config
               (\<lambda>rq. Inr reply);
        r3 = checkWithGeminiNative_initial errorMessage default_gemini validateResponse env
               config (\<lambda>rq. Inr reply);
        r4 = checkGemini default_gemini env config (Inr ())
    in read_decimal (js_int_to_string elapsed) = Some elapsed \<and>
       status r1 = expected_status \<and> latencyMs r1 = Some elapsed \<and>
       message r1 = expected_message \<and>
       status r2 = expected_status \<and> latencyMs r2 = Some elapsed \<and>
       message r2 = expected_message \<and>
       status r3 = expected_status \<and> latencyMs r3 = Some elapsed \<and>
       message r3 = expected_message \<and>
       status r4 = expected_status \<and> latencyMs r4 = Some elapsed \<and>
       message r4 =
         (if elapsed \<le> 6000
          then [27969, 24335, 21709, 24212, 27491, 24120, 32, 40] @ js_int_to_string elapsed @
               lit ''ms)''
          else expected_message) \<and>
       (case checkWithGeminiNative_retry errorMessage default_gemini validateResponse None env
               config request of
          (requests, r5) \<Rightarrow>
            request (last requests) = Inr reply \<longrightarrow>
            status r5 = expected_status \<and> latencyMs r5 = Some elapsed \<and>
            message r5 = expected_message))"
proof
  assume h: "trim reply \<noteq> [] \<and> valid (validateResponse reply (expectedAnswer env))"
  note g = grade_reply_valid [where validateResponse = validateResponse and env = env
      and reply = reply, OF conjunct1 [OF h] conjunct2 [OF h]]
  show "let elapsed = finishedAt env - startedAt env;
        expected_status = (if elapsed \<le> 6000 then Operational else Degraded);
        expected_message =
          (if elapsed \<le> 6000
           then [39564, 35777, 36890, 36807, 32, 40] @ js_int_to_string elapsed @ lit ''ms)''
           else [21709, 24212, 25104, 21151, 20294, 32791, 26102, 32] @
                js_int_to_string elapsed @ lit ''ms'');
        r1 = checkWithAiSdk DEFAULT_ENDPOINTS validateResponse env config (Inr reply);
        r2 = checkWithGeminiNative errorMessage default_gemini validateResponse env config
               (\<lambda>rq. Inr reply);
        r3 = checkWithGeminiNative_initial errorMessage default_gemini validateResponse env
               config (\<lambda>rq. Inr reply);
        r4 = checkGemini default_gemini env config (Inr ())
    in read_decimal (js_int_to_string elapsed) = Some elapsed \<and>
       status r1 = expected_status \<and> latencyMs r1 = Some elapsed \<and>
       message r1 = expected_message \<and>
       status r2 = expected_status \<and> latencyMs r2 = Some elapsed \<and>
       message r2 = expected_message \<and>
       status r3 = expected_status \<and> latencyMs r3 = Some elapsed \<and>
       message r3 = expected_message \<and>
       status r4 = expected_status \<and> latencyMs r4 = Some elapsed \<and>
       message r4 =
         (if elapsed \<le> 6000
          then [27969, 24335, 21709, 24212, 27491, 24120, 32, 40] @ js_int_to_string elapsed @
               lit ''ms)''
          else expected_message) \<and>
       (case checkWithGeminiNative_retry errorMessage default_gemini validateResponse None env
               config request of
          (requests, r5) \<Rightarrow>
            request (last requests) = Inr reply \<longrightarrow>
            status r5 = expected_status \<and> latencyMs r5 = Some elapsed \<and>
            message r5 = expected_message)"
    unfolding Let_def
  proof (intro conjI)
    show "read_decimal (js_int_to_string (finishedAt env - startedAt env)) =
        Some (finishedAt env - startedAt env)"
      by (rule read_decimal_js_int_to_string)
    show "status (checkWithAiSdk DEFAULT_ENDPOINTS validateResponse env config (Inr reply)) =
        (if finishedAt env - startedAt env \<le> 6000 then Operational else Degraded)"
      by (simp add: checkWithAiSdk_def Let_def g)
    show "latencyMs (checkWithAiSdk DEFAULT_ENDPOINTS validateResponse env config (Inr reply)) =
        Some (finishedAt env - startedAt env)"
      by (simp add: checkWithAiSdk_def Let_def g)
    show "message (checkWithAiSdk DEFAULT_ENDPOINTS validateResponse env config (Inr reply)) =
        (if finishedAt env - startedAt env \<le> 6000
         then [39564, 35777, 36890, 36807, 32, 40] @
              js_int_to_string (finishedAt env - startedAt env) @ lit ''ms)''
         else [21709, 24212, 25104, 21151, 20294, 32791, 26102, 32] @
              js_int_to_string (finishedAt env - startedAt env) @ lit ''ms'')"
      by (simp add: checkWithAiSdk_def Let_def g msg_passed_def msg_slow_def)
    show "status (checkWithGeminiNative errorMessage default_gemini validateResponse env config
               (\<lambda>rq. Inr reply)) =
        (if finishedAt env - startedAt env \<le> 6000 then Operational else Degraded)"
      by (simp add: checkWithGeminiNative_def Let_def g)
    show "latencyMs (checkWithGeminiNative errorMessage default_gemini validateResponse env config
               (\<lambda>rq. Inr reply)) = Some (finishedAt env - startedAt env)"
      by (simp add: checkWithGeminiNative_def Let_def g)
    show "message (checkWithGeminiNative errorMessage default_gemini validateResponse env config
               (\<lambda>rq. Inr reply)) =
        (if finishedAt env - startedAt env \<le> 6000
         then [39564, 35777, 36890, 36807, 32, 40] @
              js_int_to_string (finishedAt env - startedAt env) @ lit ''ms)''
         else [21709, 24212, 25104, 21151, 20294, 32791, 26102, 32] @
              js_int_to_string (finishedAt env - startedAt env) @ lit ''ms'')"
      by (simp add: checkWithGeminiNative_def Let_def g msg_passed_def msg_slow_def)
    show "status (checkWithGeminiNative_initial errorMessage default_gemini validateResponse env
               config (\<lambda>rq. Inr reply)) =
        (if finishedAt env - startedAt env \<le> 6000 then Operational else Degraded)"
      by (simp add: checkWithGeminiNative_initial_def Let_def g)
    show "latencyMs (checkWithGeminiNative_initial errorMessage default_gemini validateResponse env
               config (\<lambda>rq. Inr reply)) = Some (finishedAt env - startedAt env)"
      by (simp add: checkWithGeminiNative_initial_def Let_def g)
    show "message (checkWithGeminiNative_initial errorMessage default_gemini validateResponse env
               config (\<lambda>rq. Inr reply)) =
        (if finishedAt env - startedAt env \<le> 6000
         then [39564, 35777, 36890, 36807, 32, 40] @
              js_int_to_string (finishedAt env - startedAt env) @ lit ''ms)''
         else [21709, 24212, 25104, 21151, 20294, 32791, 26102, 32] @
              js_int_to_string (finishedAt env - startedAt env) @ lit ''ms'')"
      by (simp add: checkWithGeminiNative_initial_def Let_def g msg_passed_def msg_slow_def)
    show "status (checkGemini default_gemini env config (Inr ())) =
        (if finishedAt env - startedAt env \<le> 6000 then Operational else Degraded)"
      by (simp add: checkGemini_def Let_def)
    show "latencyMs (checkGemini default_gemini env config (Inr ())) =
        Some (finishedAt env - startedAt env)"
      by (simp add: checkGemini_def Let_def)
    show "message (checkGemini default_gemini env config (Inr ())) =
        (if finishedAt env - startedAt env \<le> 6000
         then [27969, 24335, 21709, 24212, 27491, 24120, 32, 40] @
              js_int_to_string (finishedAt env - startedAt env) @ lit ''ms)''
         else if finishedAt env - startedAt env \<le> 6000
         then [39564, 35777, 36890, 36807, 32, 40] @
              js_int_to_string (finishedAt env - startedAt env) @ lit ''ms)''
         else [21709, 24212, 25104, 21151, 20294, 32791, 26102, 32] @
              js_int_to_string (finishedAt env - startedAt env) @ lit ''ms'')"
      by (simp add: checkGemini_def Let_def msg_stream_ok_def msg_slow_def)
    show "case checkWithGeminiNative_retry errorMessage default_gemini validateResponse None env
               config request of
          (requests, r5) \<Rightarrow>
            request (last requests) = Inr reply \<longrightarrow>
            status r5 = (if finishedAt env - startedAt env \<le> 6000 then Operational else Degraded) \<and>
            latencyMs r5 = Some (finishedAt env - startedAt env) \<and>
            message r5 =
              (if finishedAt env - startedAt env \<le> 6000
               then [39564, 35777, 36890, 36807, 32, 40] @
                    js_int_to_string (finishedAt env - startedAt env) @ lit ''ms)''
               else [21709, 24212, 25104, 21151, 20294, 32791, 26102, 32] @
                    js_int_to_string (finishedAt env - startedAt env) @ lit ''ms'')"
      by (simp add: checkWithGeminiNative_retry_def Let_def g DEGRADED_THRESHOLD_MS_def
          msg_passed_def msg_slow_def split: sum.splits)
  qed
qed

lemmas check_defs = checkWithAiSdk_def checkWithGeminiNative_def checkWithGeminiNative_retry_def
  checkWithGeminiNative_initial_def checkGemini_def
  grade_reply_def buildCheckResult_def gemini_display_endpoint_def DEGRADED_THRESHOLD_MS_def
  sample_config_def sample_env_def sample_endpoints_def sample_validate_def Let_def

lemma dec_nat_250: "dec_nat 250 = lit ''250''"
  by (simp add: dec_nat.simps lit_def)

lemma dec_nat_6001: "dec_nat 6001 = lit ''6001''"
  by (simp add: dec_nat.simps lit_def)

theorem valid_reply_status_witness:
  "trim (lit ''8'') \<noteq> [] \<and> valid (sample_validate (lit ''8'') (expectedAnswer sample_env)) \<and>
   finishedAt sample_env - startedAt sample_env = 250 \<and>
   read_decimal (lit ''250'') = Some 250 \<and>
   status (checkWithAiSdk sample_endpoints sample_validate sample_env sample_config
             (Inr (lit ''8''))) = Operational \<and>
   latencyMs (checkWithAiSdk sample_endpoints sample_validate sample_env sample_config
             (Inr (lit ''8''))) = Some 250 \<and>
   message (checkWithAiSdk sample_endpoints sample_validate sample_env sample_config
             (Inr (lit ''8''))) = [39564, 35777, 36890, 36807, 32, 40] @ lit ''250ms)'' \<and>
   status (checkWithGeminiNative getErrorMessage (lit ''https://example.test/v1beta/models'')
             sample_validate sample_env sample_config (\<lambda>rq. Inr (lit ''8''))) = Operational \<and>
   map rq_action (fst (checkWithGeminiNative_retry getErrorMessage
      (lit ''https://example.test/v1beta/models'') sample_validate None sample_env sample_config
      sample_retry_request)) = [Some StreamGenerateContent, Some GenerateContent] \<and>
   status (snd (checkWithGeminiNative_retry getErrorMessage
      (lit ''https://example.test/v1beta/models'') sample_validate None sample_env sample_config
      sample_retry_request)) = Operational \<and>
   status (checkWithAiSdk sample_endpoints sample_validate (sample_env\<lparr>finishedAt := 7001\<rparr>)
             sample_config (Inr (lit ''8''))) = Degraded \<and>
   latencyMs (checkWithAiSdk sample_endpoints sample_validate (sample_env\<lparr>finishedAt := 7001\<rparr>)
             sample_config (Inr (lit ''8''))) = Some 6001 \<and>
   message (checkWithAiSdk sample_endpoints sample_validate (sample_env\<lparr>finishedAt := 7001\<rparr>)
             sample_config (Inr (lit ''8''))) =
     [21709, 24212, 25104, 21151, 20294, 32791, 26102, 32] @ lit ''6001ms'' \<and>
   message (checkWithGeminiNative getErrorMessage (lit ''https://example.test/v1beta/models'')
             sample_validate (sample_env\<lparr>finishedAt := 7001\<rparr>) sample_config
             (\<lambda>rq. Inr (lit ''8''))) =
     [21709, 24212, 25104, 21151, 20294, 32791, 26102, 32] @ lit ''6001ms''"
proof -
  have a: "trim (lit ''8'') \<noteq> []" by (simp add: string_defs)
  have b: "valid (sample_validate (lit ''8'') (expectedAnswer sample_env))"
    "valid (sample_validate (lit ''8'') (expectedAnswer (sample_env\<lparr>finishedAt := 7001\<rparr>)))"
    by (simp_all add: sample_validate_def sample_env_def lit_def)
  have c: "finishedAt sample_env - startedAt sample_env = 250"
    "finishedAt (sample_env\<lparr>finishedAt := 7001\<rparr>) -
       startedAt (sample_env\<lparr>finishedAt := 7001\<rparr>) = 6001"
    by (simp_all add: sample_env_def)
  have d: "js_int_to_string 250 = lit ''250''" "js_int_to_string 6001 = lit ''6001''"
    by (simp_all add: js_int_to_string_def dec_nat_250 dec_nat_6001)
  have l: "lit ''250'' @ lit ''ms)'' = lit ''250ms)''" "lit ''6001'' @ lit ''ms'' = lit ''6001ms''"
    by (simp_all add: lit_def)
  have e: "map rq_action (fst (checkWithGeminiNative_retry getErrorMessage
      (lit ''https://example.test/v1beta/models'') sample_validate None sample_env sample_config
      sample_retry_request)) = [Some StreamGenerateContent, Some GenerateContent]"
    by (simp add: checkWithGeminiNative_retry_def sample_retry_request_def Let_def string_defs)
  have f: "sample_retry_request (last (fst (checkWithGeminiNative_retry getErrorMessage
      (lit ''https://example.test/v1beta/models'') sample_validate None sample_env sample_config
      sample_retry_request))) = Inr (lit ''8'')"
    by (simp add: checkWithGeminiNative_retry_def sample_retry_request_def Let_def string_defs)
  from valid_reply_status [of "lit ''8''" sample_validate sample_env sample_endpoints
      sample_config getErrorMessage "lit ''https://example.test/v1beta/models''"
      sample_retry_request]
    a b c d l e f
  have 1: "read_decimal (lit ''250'') = Some 250 \<and>
   status (checkWithAiSdk sample_endpoints sample_validate sample_env sample_config
             (Inr (lit ''8''))) = Operational \<and>
   latencyMs (checkWithAiSdk sample_endpoints sample_validate sample_env sample_config
             (Inr (lit ''8''))) = Some 250 \<and>
   message (checkWithAiSdk sample_endpoints sample_validate sample_env sample_config
             (Inr (lit ''8''))) = [39564, 35777, 36890, 36807, 32, 40] @ lit ''250ms)'' \<and>
   status (checkWithGeminiNative getErrorMessage (lit ''https://example.test/v1beta/models'')
             sample_validate sample_env sample_config (\<lambda>rq. Inr (lit ''8''))) = Operational \<and>
   status (snd (checkWithGeminiNative_retry getErrorMessage
      (lit ''https://example.test/v1beta/models'') sample_validate None sample_env sample_config
      sample_retry_request)) = Operational"
    by (simp add: Let_def case_prod_beta)
  from valid_reply_status [of "lit ''8''" sample_validate "sample_env\<lparr>finishedAt := 7001\<rparr>"
      sample_endpoints sample_config getErrorMessage "lit ''https://example.test/v1beta/models''"]
    a b c d l
  have 2: "status (checkWithAiSdk sample_endpoints sample_validate (sample_env\<lparr>finishedAt := 7001\<rparr>)
             sample_config (Inr (lit ''8''))) = Degraded \<and>
   latencyMs (checkWithAiSdk sample_endpoints sample_validate (sample_env\<lparr>finishedAt := 7001\<rparr>)
             sample_config (Inr (lit ''8''))) = Some 6001 \<and>
   message (checkWithAiSdk sample_endpoints sample_validate (sample_env\<lparr>finishedAt := 7001\<rparr>)
             sample_config (Inr (lit ''8''))) =
     [21709, 24212, 25104, 21151, 20294, 32791, 26102, 32] @ lit ''6001ms'' \<and>
   message (checkWithGeminiNative getErrorMessage (lit ''https://example.test/v1beta/models'')
             sample_validate (sample_env\<lparr>finishedAt := 7001\<rparr>) sample_config
             (\<lambda>rq. Inr (lit ''8''))) =
     [21709, 24212, 25104, 21151, 20294, 32791, 26102, 32] @ lit ''6001ms''"
    by (simp add: Let_def case_prod_beta)
  from 1 2 a b c e show ?thesis by simp
qed

lemma slow_reply_degraded:
  "status (checkWithAiSdk sample_endpoints sample_validate (sample_env\<lparr>finishedAt := 7001\<rparr>)
     sample_config (Inr (lit ''8''))) = Degraded"
  by (simp add: check_defs string_defs)

text \<open>
  Claim C7. Two runs of a check that differ in nothing but what the ping measurement
  resolved to give results that agree on \<open>status\<close>, \<open>latencyMs\<close> and \<open>message\<close>; one
  result is the other with \<open>pingLatencyMs\<close> replaced. The later Gemini revision also
  issues the same requests.
\<close>

theorem ping_does_not_change_result:
  "(let r = checkWithAiSdk DEFAULT_ENDPOINTS validateResponse (env\<lparr>pingResult := p\<rparr>) config
              attempt;
        r' = checkWithAiSdk DEFAULT_ENDPOINTS validateResponse (env\<lparr>pingResult := q\<rparr>) config
              attempt
    in status r = status r' \<and> latencyMs r = latencyMs r' \<and> message r = message r' \<and>
       r = r'\<lparr>pingLatencyMs := p\<rparr> \<and> pingLatencyMs r = p) \<and>
   (let r = checkWithGeminiNative errorMessage default_gemini validateResponse
              (env\<lparr>pingResult := p\<rparr>) config request;
        r' = checkWithGeminiNative errorMessage default_gemini validateResponse
              (env\<lparr>pingResult := q\<rparr>) config request
    in status r = status r' \<and> latencyMs r = latencyMs r' \<and> message r = message r' \<and>
       r = r'\<lparr>pingLatencyMs := p\<rparr> \<and> pingLatencyMs r = p) \<and>
   (let t = checkWithGeminiNative_retry errorMessage default_gemini validateResponse env_threshold
              (env\<lparr>pingResult := p\<rparr>) config request;
        t' = checkWithGeminiNative_retry errorMessage default_gemini validateResponse env_threshold
              (env\<lparr>pingResult := q\<rparr>) config request
    in fst t = fst t' \<and> status (snd t) = status (snd t') \<and>
       latencyMs (snd t) = latencyMs (snd t') \<and> message (snd t) = message (snd t') \<and>
       snd t = (snd t')\<lparr>pingLatencyMs := p\<rparr> \<and> pingLatencyMs (snd t) = p)"
proof (intro conjI)
  show "let r = checkWithAiSdk DEFAULT_ENDPOINTS validateResponse (env\<lparr>pingResult := p\<rparr>) config
              attempt;
        r' = checkWithAiSdk DEFAULT_ENDPOINTS validateResponse (env\<lparr>pingResult := q\<rparr>) config
              attempt
    in status r = status r' \<and> latencyMs r = latencyMs r' \<and> message r = message r' \<and>
       r = r'\<lparr>pingLatencyMs := p\<rparr> \<and> pingLatencyMs r = p"
    by (cases attempt) (simp_all add: checkWithAiSdk_def grade_reply_def buildCheckResult_def Let_def)
  show "let r = checkWithGeminiNative errorMessage default_gemini validateResponse
              (env\<lparr>pingResult := p\<rparr>) config request;
        r' = checkWithGeminiNative errorMessage default_gemini validateResponse
              (env\<lparr>pingResult := q\<rparr>) config request
    in status r = status r' \<and> latencyMs r = latencyMs r' \<and> message r = message r' \<and>
       r = r'\<lparr>pingLatencyMs := p\<rparr> \<and> pingLatencyMs r = p"
    by (simp add: checkWithGeminiNative_def grade_reply_def buildCheckResult_def Let_def
        split: sum.splits)
  show "let t = checkWithGeminiNative_retry errorMessage default_gemini validateResponse env_threshold
              (env\<lparr>pingResult := p\<rparr>) config request;
        t' = checkWithGeminiNative_retry errorMessage default_gemini validateResponse env_threshold
              (env\<lparr>pingResult := q\<rparr>) config request
    in fst t = fst t' \<and> status (snd t) = status (snd t') \<and>
       latencyMs (snd t) = latencyMs (snd t') \<and> message (snd t) = message (snd t') \<and>
       snd t = (snd t')\<lparr>pingLatencyMs := p\<rparr> \<and> pingLatencyMs (snd t) = p"
    by (simp add: checkWithGeminiNative_retry_def grade_reply_def buildCheckResult_def Let_def
        split: sum.splits)
qed

lemma grade_reply_not_error:
  "status (grade_reply validateResponse threshold env
      (buildCheckResult env config endpoint ping) reply) \<noteq> Error"
  by (simp add: grade_reply_def Let_def)

text \<open>
  Claim C2, as the code has it. \<open>latencyMs\<close> is null only on the path with no response,
  where the attempt or the request threw, and whether it is null there depends on the
  check. \<open>checkWithAiSdk\<close>, \<open>checkGemini\<close> and the first revision of
  \<open>checkWithGeminiNative\<close> return null exactly on that path, with status \<open>failed\<close>,
  \<open>failed\<close> and \<open>error\<close>. \<open>checkWithGeminiNative\<close> of \<open>gemini-native.ts\<close> and its
  later revision with the retry return the elapsed time on every path, and status
  \<open>error\<close> exactly when the request, or the last of the two requests, threw. On every
  path with a response \<open>latencyMs\<close> is the elapsed time and the status is not \<open>error\<close>.
\<close>

theorem latencyMs_null_only_on_failure:
  "(let elapsed = finishedAt env - startedAt env;
        rq = \<lparr>rq_endpoint = gemini_display_endpoint default_gemini config,
              rq_apiKey = cfg_apiKey config, rq_model = cfg_model config,
              rq_prompt = prompt env, rq_timeoutMs = 45000, rq_action = None,
              rq_requestHeaders = cfg_requestHeaders config\<rparr>;
        r1 = checkWithAiSdk DEFAULT_ENDPOINTS validateResponse env config attempt;
        r2 = checkGemini default_gemini env config stream_end;
        r3 = checkWithGeminiNative_initial errorMessage default_gemini validateResponse env
               config request;
        r4 = checkWithGeminiNative errorMessage default_gemini validateResponse env config
               request
    in (case attempt of
          Inl e \<Rightarrow> status r1 = Failed \<and> latencyMs r1 = None
        | Inr t \<Rightarrow> status r1 \<noteq> Error \<and> latencyMs r1 = Some elapsed) \<and>
       (latencyMs r1 = None \<longleftrightarrow> (\<exists>e. attempt = Inl e)) \<and>
       (case stream_end of
          Inl e \<Rightarrow> status r2 = Failed \<and> latencyMs r2 = None
        | Inr u \<Rightarrow> (status r2 = Operational \<or> status r2 = Degraded) \<and>
                   latencyMs r2 = Some elapsed) \<and>
       (case request rq of
          Inl e \<Rightarrow> status r3 = Error \<and> latencyMs r3 = None
        | Inr t \<Rightarrow> status r3 \<noteq> Error \<and> latencyMs r3 = Some elapsed) \<and>
       (case request rq of
          Inl e \<Rightarrow> status r4 = Error \<and> latencyMs r4 = Some elapsed
        | Inr t \<Rightarrow> status r4 \<noteq> Error \<and> latencyMs r4 = Some elapsed) \<and>
       (case checkWithGeminiNative_retry errorMessage default_gemini validateResponse
               env_threshold env config request of
          (requests, r5) \<Rightarrow>
            latencyMs r5 = Some elapsed \<and>
            (case request (last requests) of
               Inl e \<Rightarrow> status r5 = Error
             | Inr t \<Rightarrow> status r5 \<noteq> Error)))"
  unfolding Let_def
proof (intro conjI)
  show "case attempt of
          Inl e \<Rightarrow> status (checkWithAiSdk DEFAULT_ENDPOINTS validateResponse env config attempt) =
                     Failed \<and>
                   latencyMs (checkWithAiSdk DEFAULT_ENDPOINTS validateResponse env config attempt) =
                     None
        | Inr t \<Rightarrow> status (checkWithAiSdk DEFAULT_ENDPOINTS validateResponse env config attempt) \<noteq>
                     Error \<and>
                   latencyMs (checkWithAiSdk DEFAULT_ENDPOINTS validateResponse env config attempt) =
                     Some (finishedAt env - startedAt env)"
    by (cases attempt)
       (simp_all add: checkWithAiSdk_def Let_def grade_reply_latency grade_reply_not_error)
  show "latencyMs (checkWithAiSdk DEFAULT_ENDPOINTS validateResponse env config attempt) = None \<longleftrightarrow>
      (\<exists>e. attempt = Inl e)"
    by (cases attempt) (simp_all add: checkWithAiSdk_def Let_def grade_reply_latency)
  show "case stream_end of
          Inl e \<Rightarrow> status (checkGemini default_gemini env config stream_end) = Failed \<and>
                   latencyMs (checkGemini default_gemini env config stream_end) = None
        | Inr u \<Rightarrow> (status (checkGemini default_gemini env config stream_end) = Operational \<or>
                    status (checkGemini default_gemini env config stream_end) = Degraded) \<and>
                   latencyMs (checkGemini default_gemini env config stream_end) =
                     Some (finishedAt env - startedAt env)"
    by (cases stream_end) (simp_all add: checkGemini_def Let_def)
  show "case request \<lparr>rq_endpoint = gemini_display_endpoint default_gemini config,
              rq_apiKey = cfg_apiKey config, rq_model = cfg_model config,
              rq_prompt = prompt env, rq_timeoutMs = 45000, rq_action = None,
              rq_requestHeaders = cfg_requestHeaders config\<rparr> of
          Inl e \<Rightarrow> status (checkWithGeminiNative_initial errorMessage default_gemini
                      validateResponse env config request) = Error \<and>
                   latencyMs (checkWithGeminiNative_initial errorMessage default_gemini
                      validateResponse env config request) = None
        | Inr t \<Rightarrow> status (checkWithGeminiNative_initial errorMessage default_gemini
                      validateResponse env config request) \<noteq> Error \<and>
                   latencyMs (checkWithGeminiNative_initial errorMessage default_gemini
                      validateResponse env config request) =
                     Some (finishedAt env - startedAt env)"
    by (simp add: checkWithGeminiNative_initial_def Let_def grade_reply_latency
        grade_reply_not_error split: sum.splits)
  show "case request \<lparr>rq_endpoint = gemini_display_endpoint default_gemini config,
              rq_apiKey = cfg_apiKey config, rq_model = cfg_model config,
              rq_prompt = prompt env, rq_timeoutMs = 45000, rq_action = None,
              rq_requestHeaders = cfg_requestHeaders config\<rparr> of
          Inl e \<Rightarrow> status (checkWithGeminiNative errorMessage default_gemini
                      validateResponse env config request) = Error \<and>
                   latencyMs (checkWithGeminiNative errorMessage default_gemini
                      validateResponse env config request) =
                     Some (finishedAt env - startedAt env)
        | Inr t \<Rightarrow> status (checkWithGeminiNative errorMessage default_gemini
                      validateResponse env config request) \<noteq> Error \<and>
                   latencyMs (checkWithGeminiNative errorMessage default_gemini
                      validateResponse env config request) =
                     Some (finishedAt env - startedAt env)"
    by (simp add: checkWithGeminiNative_def Let_def grade_reply_latency
        grade_reply_not_error split: sum.splits)
  show "case checkWithGeminiNative_retry errorMessage default_gemini validateResponse
               env_threshold env config request of
          (requests, r5) \<Rightarrow>
            latencyMs r5 = Some (finishedAt env - startedAt env) \<and>
            (case request (last requests) of
               Inl e \<Rightarrow> status r5 = Error
             | Inr t \<Rightarrow> status r5 \<noteq> Error)"
    by (simp add: checkWithGeminiNative_retry_def Let_def grade_reply_latency
        grade_reply_not_error split: sum.splits)
qed

theorem latencyMs_null_only_on_failure_witness:
  "status (checkWithAiSdk sample_endpoints sample_validate sample_env sample_config
      (Inl None)) = Failed \<and>
   latencyMs (checkWithAiSdk sample_endpoints sample_validate sample_env sample_config
      (Inl None)) = None \<and>
   latencyMs (checkWithAiSdk sample_endpoints sample_validate sample_env sample_config
      (Inr (lit ''8''))) = Some 250 \<and>
   status (checkGemini (lit ''https://example.test/v1beta/models'') sample_env sample_config
      (Inl None)) = Failed \<and>
   latencyMs (checkGemini (lit ''https://example.test/v1beta/models'') sample_env sample_config
      (Inl None)) = None \<and>
   latencyMs (checkGemini (lit ''https://example.test/v1beta/models'') sample_env sample_config
      (Inr ())) = Some 250 \<and>
   status (checkWithGeminiNative_initial getErrorMessage
      (lit ''https://example.test/v1beta/models'') sample_validate sample_env sample_config
      (\<lambda>rq. Inl None)) = Error \<and>
   latencyMs (checkWithGeminiNative_initial getErrorMessage
      (lit ''https://example.test/v1beta/models'') sample_validate sample_env sample_config
      (\<lambda>rq. Inl None)) = None \<and>
   status (checkWithGeminiNative getErrorMessage (lit ''https://example.test/v1beta/models'')
      sample_validate sample_env sample_config (\<lambda>rq. Inl None)) = Error \<and>
   latencyMs (checkWithGeminiNative getErrorMessage (lit ''https://example.test/v1beta/models'')
      sample_validate sample_env sample_config (\<lambda>rq. Inl None)) = Some 250"
proof -
  have c: "finishedAt sample_env - startedAt sample_env = 250" by (simp add: sample_env_def)
  note thrown = latencyMs_null_only_on_failure [where env = sample_env
      and config = sample_config and DEFAULT_ENDPOINTS = sample_endpoints
      and validateResponse = sample_validate and attempt = "Inl None"
      and stream_end = "Inl None" and errorMessage = getErrorMessage
      and default_gemini = "lit ''https://example.test/v1beta/models''"
      and request = "\<lambda>rq. Inl None" and env_threshold = None]
  note returned = latencyMs_null_only_on_failure [where env = sample_env
      and config = sample_config and DEFAULT_ENDPOINTS = sample_endpoints
      and validateResponse = sample_validate and attempt = "Inr (lit ''8'')"
      and stream_end = "Inr ()" and errorMessage = getErrorMessage
      and default_gemini = "lit ''https://example.test/v1beta/models''"
      and request = "\<lambda>rq. Inr (lit ''8'')" and env_threshold = None]
  from thrown c have 1:
    "status (checkWithAiSdk sample_endpoints sample_validate sample_env sample_config
        (Inl None)) = Failed \<and>
     latencyMs (checkWithAiSdk sample_endpoints sample_validate sample_env sample_config
        (Inl None)) = None \<and>
     status (checkGemini (lit ''https://example.test/v1beta/models'') sample_env sample_config
        (Inl None)) = Failed \<and>
     latencyMs (checkGemini (lit ''https://example.test/v1beta/models'') sample_env sample_config
        (Inl None)) = None \<and>
     status (checkWithGeminiNative_initial getErrorMessage
        (lit ''https://example.test/v1beta/models'') sample_validate sample_env sample_config
        (\<lambda>rq. Inl None)) = Error \<and>
     latencyMs (checkWithGeminiNative_initial getErrorMessage
        (lit ''https://example.test/v1beta/models'') sample_validate sample_env sample_config
        (\<lambda>rq. Inl None)) = None \<and>
     status (checkWithGeminiNative getErrorMessage (lit ''https://example.test/v1beta/models'')
        sample_validate sample_env sample_config (\<lambda>rq. Inl None)) = Error \<and>
     latencyMs (checkWithGeminiNative getErrorMessage (lit ''https://example.test/v1beta/models'')
        sample_validate sample_env sample_config (\<lambda>rq. Inl None)) = Some 250"
    unfolding Let_def by simp
  from returned c have 2:
    "latencyMs (checkWithAiSdk sample_endpoints sample_validate sample_env sample_config
        (Inr (lit ''8''))) = Some 250 \<and>
     latencyMs (checkGemini (lit ''https://example.test/v1beta/models'') sample_env sample_config
        (Inr ())) = Some 250"
    unfolding Let_def by simp
  from 1 2 show ?thesis by simp
qed

text \<open>
  The claim as written gives one rule for every provider check. On the same readings of
  the clock (250 ms elapsed) and the same thrown value, \<open>checkWithAiSdk\<close> returns status
  \<open>failed\<close> with \<open>latencyMs\<close> null, and \<open>checkWithGeminiNative\<close>, with and without the
  retry, returns status \<open>error\<close> with \<open>latencyMs\<close> 250. So \<open>latencyMs\<close> is not null on
  every no-response path, and it is not the elapsed time wherever that is measurable:
  the elapsed time is measurable in both runs.
\<close>

theorem latencyMs_gemini_failure_counterexample:
  "finishedAt sample_env - startedAt sample_env = 250 \<and>
   status (checkWithAiSdk sample_endpoints sample_validate sample_env sample_config
      (Inl (Some \<lparr>error_name = Some (lit ''TypeError''),
                  error_message = Some (lit ''fetch failed'')\<rparr>))) = Failed \<and>
   latencyMs (checkWithAiSdk sample_endpoints sample_validate sample_env sample_config
      (Inl (Some \<lparr>error_name = Some (lit ''TypeError''),
                  error_message = Some (lit ''fetch failed'')\<rparr>))) = None \<and>
   status (checkWithGeminiNative getErrorMessage (lit ''https://example.test/v1beta/models'')
      sample_validate sample_env sample_config
      (\<lambda>rq. Inl (Some \<lparr>error_name = Some (lit ''TypeError''),
                        error_message = Some (lit ''fetch failed'')\<rparr>))) = Error \<and>
   latencyMs (checkWithGeminiNative getErrorMessage (lit ''https://example.test/v1beta/models'')
      sample_validate sample_env sample_config
      (\<lambda>rq. Inl (Some \<lparr>error_name = Some (lit ''TypeError''),
                        error_message = Some (lit ''fetch failed'')\<rparr>))) = Some 250 \<and>
   status (snd (checkWithGeminiNative_retry getErrorMessage
      (lit ''https://example.test/v1beta/models'') sample_validate None sample_env sample_config
      (\<lambda>rq. Inl (Some \<lparr>error_name = Some (lit ''TypeError''),
                        error_message = Some (lit ''fetch failed'')\<rparr>)))) = Error \<and>
   latencyMs (snd (checkWithGeminiNative_retry getErrorMessage
      (lit ''https://example.test/v1beta/models'') sample_validate None sample_env sample_config
      (\<lambda>rq. Inl (Some \<lparr>error_name = Some (lit ''TypeError''),
                        error_message = Some (lit ''fetch failed'')\<rparr>)))) = Some 250"
  by (simp add: check_defs)

text \<open>
  The errors that \<open>isTimeoutError\<close> recognises. \<open>checkWithAiSdk\<close> turns each of them into
  status \<open>failed\<close> with the fixed time-out message. \<open>checkWithGeminiNative\<close> gives status
  \<open>error\<close> for every caught error, with the message of the error handler it imports.
\<close>

lemma checkWithAiSdk_timeout_message:
  "(error_name e = Some (lit ''AbortError'') \<or>
    (\<exists>m. error_message e = Some m \<and>
         (js_includes (map to_lower m) (lit ''request was aborted'') \<or>
          js_includes (map to_lower m) (lit ''timeout'')))) \<longrightarrow>
   (let r = checkWithAiSdk DEFAULT_ENDPOINTS validateResponse env config (Inl (Some e)) in
      status r = Failed \<and> message r = MSG_TIMEOUT \<and> latencyMs r = None) \<and>
   (let r = checkWithGeminiNative errorMessage default_gemini validateResponse env config
              (\<lambda>rq. Inl (Some e)) in
      status r = Error \<and> message r = errorMessage (Some e))"
proof
  assume h: "error_name e = Some (lit ''AbortError'') \<or>
    (\<exists>m. error_message e = Some m \<and>
         (js_includes (map to_lower m) (lit ''request was aborted'') \<or>
          js_includes (map to_lower m) (lit ''timeout'')))"
  then have "isTimeoutError (Some e)"
    by (auto simp: isTimeoutError_def message_or_empty_def)
  then have "getErrorMessage (Some e) = MSG_TIMEOUT" by (simp add: getErrorMessage_def)
  then show "(let r = checkWithAiSdk DEFAULT_ENDPOINTS validateResponse env config (Inl (Some e)) in
      status r = Failed \<and> message r = MSG_TIMEOUT \<and> latencyMs r = None) \<and>
   (let r = checkWithGeminiNative errorMessage default_gemini validateResponse env config
              (\<lambda>rq. Inl (Some e)) in
      status r = Error \<and> message r = errorMessage (Some e))"
    by (simp add: checkWithAiSdk_def checkWithGeminiNative_def Let_def)
qed

text \<open>
  \<open>checkGemini\<close> tests the name of the error only: an error named \<open>AbortError\<close> gives the
  fixed time-out message, and any other error with a non-empty message gives that
  message unchanged, whatever it says.
\<close>

lemma checkGemini_abort_name:
  "error_name e = Some (lit ''AbortError'') \<Longrightarrow>
   status (checkGemini default_gemini env config (Inl (Some e))) = Failed \<and>
   message (checkGemini default_gemini env config (Inl (Some e))) = MSG_TIMEOUT"
  by (simp add: checkGemini_def buildCheckResult_def Let_def)

lemma checkGemini_raw_message:
  "error_name e \<noteq> Some (lit ''AbortError'') \<Longrightarrow> error_message e = Some m \<Longrightarrow> m \<noteq> [] \<Longrightarrow>
   status (checkGemini default_gemini env config (Inl (Some e))) = Failed \<and>
   message (checkGemini default_gemini env config (Inl (Some e))) = m"
  by (simp add: checkGemini_def buildCheckResult_def message_or_empty_def Let_def)

text \<open>
  Claim C3 at the error with which the OpenAI client rejects a request that was aborted
  at the deadline: its name is \<open>Error\<close> and its message \<open>Request was aborted.\<close>. The
  message indicates an abort, and \<open>isTimeoutError\<close> recognises it, so \<open>checkWithAiSdk\<close>
  answers with the fixed time-out message. \<open>checkGemini\<close>, which aborts its request at
  the same deadline, answers with status \<open>failed\<close> and the raw message of the error.
\<close>

theorem checkGemini_timeout_message_raw:
  "js_includes (map to_lower (lit ''Request was aborted.'')) (lit ''request was aborted'') \<and>
   isTimeoutError (Some \<lparr>error_name = Some (lit ''Error''),
                         error_message = Some (lit ''Request was aborted.'')\<rparr>) \<and>
   status (checkWithAiSdk sample_endpoints sample_validate sample_env sample_config
      (Inl (Some \<lparr>error_name = Some (lit ''Error''),
                  error_message = Some (lit ''Request was aborted.'')\<rparr>))) = Failed \<and>
   message (checkWithAiSdk sample_endpoints sample_validate sample_env sample_config
      (Inl (Some \<lparr>error_name = Some (lit ''Error''),
                  error_message = Some (lit ''Request was aborted.'')\<rparr>))) =
     [35831, 27714, 36229, 26102] \<and>
   status (checkGemini (lit ''https://example.test/v1beta/models'') sample_env sample_config
      (Inl (Some \<lparr>error_name = Some (lit ''Error''),
                  error_message = Some (lit ''Request was aborted.'')\<rparr>))) = Failed \<and>
   message (checkGemini (lit ''https://example.test/v1beta/models'') sample_env sample_config
      (Inl (Some \<lparr>error_name = Some (lit ''Error''),
                  error_message = Some (lit ''Request was aborted.'')\<rparr>))) =
     lit ''Request was aborted.'' \<and>
   lit ''Request was aborted.'' \<noteq> [35831, 27714, 36229, 26102]"
proof -
  have i: "js_includes (map to_lower (lit ''Request was aborted.'')) (lit ''request was aborted'')"
    by (simp add: lit_def to_lower_def)
  have t: "isTimeoutError (Some \<lparr>error_name = Some (lit ''Error''),
                         error_message = Some (lit ''Request was aborted.'')\<rparr>)"
    using i by (simp add: isTimeoutError_def message_or_empty_def)
  have n: "lit ''Error'' \<noteq> lit ''AbortError''" by (simp add: lit_def)
  have m: "lit ''Request was aborted.'' \<noteq> []" by (simp add: lit_def)
  have d: "lit ''Request was aborted.'' \<noteq> [35831, 27714, 36229, 26102]" by (simp add: lit_def)
  from t have g: "getErrorMessage (Some \<lparr>error_name = Some (lit ''Error''),
                         error_message = Some (lit ''Request was aborted.'')\<rparr>) = MSG_TIMEOUT"
    by (simp add: getErrorMessage_def)
  have a: "status (checkWithAiSdk sample_endpoints sample_validate sample_env sample_config
      (Inl (Some \<lparr>error_name = Some (lit ''Error''),
                  error_message = Some (lit ''Request was aborted.'')\<rparr>))) = Failed \<and>
   message (checkWithAiSdk sample_endpoints sample_validate sample_env sample_config
      (Inl (Some \<lparr>error_name = Some (lit ''Error''),
                  error_message = Some (lit ''Request was aborted.'')\<rparr>))) =
     [35831, 27714, 36229, 26102]"
    using g by (simp add: checkWithAiSdk_def buildCheckResult_def Let_def MSG_TIMEOUT_def)
  have b: "status (checkGemini (lit ''https://example.test/v1beta/models'') sample_env sample_config
      (Inl (Some \<lparr>error_name = Some (lit ''Error''),
                  error_message = Some (lit ''Request was aborted.'')\<rparr>))) = Failed \<and>
   message (checkGemini (lit ''https://example.test/v1beta/models'') sample_env sample_config
      (Inl (Some \<lparr>error_name = Some (lit ''Error''),
                  error_message = Some (lit ''Request was aborted.'')\<rparr>))) =
     lit ''Request was aborted.''"
    using n m by (simp add: checkGemini_def buildCheckResult_def message_or_empty_def Let_def)
  from i t a b d show ?thesis by simp
qed

text \<open>
  Claim C5. The later revision of \<open>checkWithGeminiNative\<close> issues the streaming request
  first. It issues one more request exactly when the first one returned text that is
  blank after trimming; that request has the action \<open>generateContent\<close> and otherwise the
  parameters of the first (the same endpoint, key, model, prompt, time-out and headers).
  No further request follows, so there are at most two. If the second text is blank as
  well, the result is \<open>failed\<close> with the empty-reply message.
\<close>

theorem gemini_retry_once:
  "(let first = \<lparr>rq_endpoint = gemini_display_endpoint default_gemini config,
                  rq_apiKey = cfg_apiKey config, rq_model = cfg_model config,
                  rq_prompt = prompt env, rq_timeoutMs = 45000,
                  rq_action = Some StreamGenerateContent,
                  rq_requestHeaders = cfg_requestHeaders config\<rparr>;
        second = first\<lparr>rq_action := Some GenerateContent\<rparr>;
        first_blank = (\<exists>t. request first = Inr t \<and> trim t = []);
        run = checkWithGeminiNative_retry errorMessage default_gemini validateResponse
                env_threshold env config request
    in fst run = (if first_blank then [first, second] else [first]) \<and>
       length (fst run) \<le> 2 \<and>
       (first_blank \<and> (\<exists>t. request second = Inr t \<and> trim t = []) \<longrightarrow>
          status (snd run) = Failed \<and> message (snd run) = MSG_EMPTY_REPLY \<and>
          latencyMs (snd run) = Some (finishedAt env - startedAt env)))"
  unfolding Let_def
proof (intro conjI impI)
  let ?first = "\<lparr>rq_endpoint = gemini_display_endpoint default_gemini config,
                  rq_apiKey = cfg_apiKey config, rq_model = cfg_model config,
                  rq_prompt = prompt env, rq_timeoutMs = 45000,
                  rq_action = Some StreamGenerateContent,
                  rq_requestHeaders = cfg_requestHeaders config\<rparr>"
  let ?run = "checkWithGeminiNative_retry errorMessage default_gemini validateResponse
                env_threshold env config request"
  show t: "fst ?run = (if \<exists>t. request ?first = Inr t \<and> trim t = []
        then [?first, ?first\<lparr>rq_action := Some GenerateContent\<rparr>] else [?first])"
    by (auto simp: checkWithGeminiNative_retry_def Let_def split: sum.splits)
  then show "length (fst ?run) \<le> 2" by simp
  assume h: "(\<exists>t. request ?first = Inr t \<and> trim t = []) \<and>
     (\<exists>t. request (?first\<lparr>rq_action := Some GenerateContent\<rparr>) = Inr t \<and> trim t = [])"
  then obtain t1 t2 where
    1: "request ?first = Inr t1" "trim t1 = []" and
    2: "request (?first\<lparr>rq_action := Some GenerateContent\<rparr>) = Inr t2" "trim t2 = []"
    by blast
  from 2 have snd_rq: "request \<lparr>rq_endpoint = gemini_display_endpoint default_gemini config,
                  rq_apiKey = cfg_apiKey config, rq_model = cfg_model config,
                  rq_prompt = prompt env, rq_timeoutMs = 45000,
                  rq_action = Some GenerateContent,
                  rq_requestHeaders = cfg_requestHeaders config\<rparr> = Inr t2"
    by simp
  have r: "snd ?run = buildCheckResult env config (gemini_display_endpoint default_gemini config)
        (pingResult env) Failed (Some (finishedAt env - startedAt env)) MSG_EMPTY_REPLY"
    using 1 snd_rq 2(2) by (simp add: checkWithGeminiNative_retry_def Let_def grade_reply_empty)
  show "status (snd ?run) = Failed" by (simp add: r)
  show "message (snd ?run) = MSG_EMPTY_REPLY" by (simp add: r)
  show "latencyMs (snd ?run) = Some (finishedAt env - startedAt env)" by (simp add: r)
qed

theorem gemini_retry_once_witness:
  "map rq_action (fst (checkWithGeminiNative_retry getErrorMessage
      (lit ''https://example.test/v1beta/models'') sample_validate None sample_env sample_config
      (\<lambda>rq. Inr (lit '' '')))) = [Some StreamGenerateContent, Some GenerateContent] \<and>
   status (snd (checkWithGeminiNative_retry getErrorMessage
      (lit ''https://example.test/v1beta/models'') sample_validate None sample_env sample_config
      (\<lambda>rq. Inr (lit '' '')))) = Failed \<and>
   message (snd (checkWithGeminiNative_retry getErrorMessage
      (lit ''https://example.test/v1beta/models'') sample_validate None sample_env sample_config
      (\<lambda>rq. Inr (lit '' '')))) = [22238, 22797, 20026, 31354] \<and>
   map rq_action (fst (checkWithGeminiNative_retry getErrorMessage
      (lit ''https://example.test/v1beta/models'') sample_validate None sample_env sample_config
      (\<lambda>rq. Inr (lit ''8'')))) = [Some StreamGenerateContent]"
proof -
  have b: "trim (lit '' '') = []" by (simp add: string_defs)
  have n: "trim (lit ''8'') \<noteq> []" by (simp add: string_defs)
  from gemini_retry_once [of "lit ''https://example.test/v1beta/models''" sample_config
      sample_env "\<lambda>rq. Inr (lit '' '')" getErrorMessage sample_validate None] b
  have 1: "map rq_action (fst (checkWithGeminiNative_retry getErrorMessage
      (lit ''https://example.test/v1beta/models'') sample_validate None sample_env sample_config
      (\<lambda>rq. Inr (lit '' '')))) = [Some StreamGenerateContent, Some GenerateContent] \<and>
   status (snd (checkWithGeminiNative_retry getErrorMessage
      (lit ''https://example.test/v1beta/models'') sample_validate None sample_env sample_config
      (\<lambda>rq. Inr (lit '' '')))) = Failed \<and>
   message (snd (checkWithGeminiNative_retry getErrorMessage
      (lit ''https://example.test/v1beta/models'') sample_validate None sample_env sample_config
      (\<lambda>rq. Inr (lit '' '')))) = MSG_EMPTY_REPLY"
    by (simp add: Let_def)
  from gemini_retry_once [of "lit ''https://example.test/v1beta/models''" sample_config
      sample_env "\<lambda>rq. Inr (lit ''8'')" getErrorMessage sample_validate None] n
  have 2: "map rq_action (fst (checkWithGeminiNative_retry getErrorMessage
      (lit ''https://example.test/v1beta/models'') sample_validate None sample_env sample_config
      (\<lambda>rq. Inr (lit ''8'')))) = [Some StreamGenerateContent]"
    by (simp add: Let_def)
  from 1 2 show ?thesis by (simp add: MSG_EMPTY_REPLY_def)
qed

text \<open>
  The two requests of a retried check on the default kind of endpoint resolve to the
  same base, model and query, with only the action exchanged.
\<close>

lemma retry_urls_sample:
  "resolveGeminiUrlForAction (lit ''https://example.test/v1beta/models?key=1'')
     (lit ''gemini-pro'') StreamGenerateContent =
     lit ''https://example.test/v1beta/models/gemini-pro:streamGenerateContent?key=1'' \<and>
   resolveGeminiUrlForAction (lit ''https://example.test/v1beta/models?key=1'')
     (lit ''gemini-pro'') GenerateContent =
     lit ''https://example.test/v1beta/models/gemini-pro:generateContent?key=1''"
  by (simp add: resolveGeminiUrlForAction_def string_defs)

section \<open>Properties of the poller\<close>

lemma tick_checked_clears:
  "snd (snd (tick_checked s outcome)) = None \<Longrightarrow> \<not> pollerRunning (fst (tick_checked s outcome))"
  by (cases outcome) (auto simp: tick_checked_def split: if_splits)

lemma tick_appended_clears:
  "\<not> pollerRunning (fst (tick_appended interval s started results outcome now))"
  by (cases outcome) (auto simp: tick_appended_def)

lemma tick_clears:
  "\<not> pollerRunning s \<Longrightarrow> \<not> pollerRunning (fst (tick interval s w))"
  by (cases "checksOutcome w"; cases "historyOutcome w")
     (auto simp: tick_def tick_enter_def tick_checked_def tick_appended_def)

text \<open>
  Claim C4. A tick that finds the running flag set leaves the state as it is, emits the
  skip diagnostic alone (no call of \<open>runProviderChecks\<close>, none of \<open>appendHistory\<close>) and
  returns with nothing pending. The flag is set by the tick in flight, which stored its
  start time: a tick entered at \<open>t0\<close> makes a tick firing at \<open>t1\<close> skip with the duration
  \<open>t1 - t0\<close> (a clock reading is not \<open>0\<close>). Every way a tick that was entered can end
  clears the flag: an exception or an empty result of \<open>runProviderChecks\<close>, an exception
  of \<open>appendHistory\<close> or of the summary, and the normal end.
\<close>

theorem tick_single_flight:
  "(pollerRunning s \<longrightarrow>
      tick_enter s now =
        (s, [Log_skip (case lastPingStartedAt s of
                         None \<Rightarrow> None
                       | Some t \<Rightarrow> if t \<noteq> 0 then Some (now - t) else None)], None) \<and>
      Call_runProviderChecks \<notin> set (fst (snd (tick_enter s now))) \<and>
      (\<forall>rs. Call_appendHistory rs \<notin> set (fst (snd (tick_enter s now))))) \<and>
   (\<not> pollerRunning s \<and> t0 \<noteq> 0 \<longrightarrow>
      pollerRunning (fst (tick_enter s t0)) \<and>
      snd (snd (tick_enter s t0)) = Some t0 \<and>
      tick_enter (fst (tick_enter s t0)) t1 =
        (fst (tick_enter s t0), [Log_skip (Some (t1 - t0))], None)) \<and>
   (snd (snd (tick_checked s outcome)) = None \<longrightarrow>
      \<not> pollerRunning (fst (tick_checked s outcome))) \<and>
   \<not> pollerRunning (fst (tick_appended interval s started results history now)) \<and>
   (\<not> pollerRunning s \<longrightarrow> \<not> pollerRunning (fst (tick interval s w)))"
proof (intro conjI impI allI)
  assume r: "pollerRunning s"
  then show e: "tick_enter s now =
        (s, [Log_skip (case lastPingStartedAt s of
                         None \<Rightarrow> None
                       | Some t \<Rightarrow> if t \<noteq> 0 then Some (now - t) else None)], None)"
    by (simp add: tick_enter_def)
  show "Call_runProviderChecks \<notin> set (fst (snd (tick_enter s now)))" by (simp add: e)
  fix rs
  show "Call_appendHistory rs \<notin> set (fst (snd (tick_enter s now)))" by (simp add: e)
next
  assume h: "\<not> pollerRunning s \<and> t0 \<noteq> 0"
  then show "pollerRunning (fst (tick_enter s t0))" by (simp add: tick_enter_def)
  from h show "snd (snd (tick_enter s t0)) = Some t0" by (simp add: tick_enter_def)
  from h show "tick_enter (fst (tick_enter s t0)) t1 =
        (fst (tick_enter s t0), [Log_skip (Some (t1 - t0))], None)"
    by (simp add: tick_enter_def)
next
  assume "snd (snd (tick_checked s outcome)) = None"
  then show "\<not> pollerRunning (fst (tick_checked s outcome))" by (rule tick_checked_clears)
next
  show "\<not> pollerRunning (fst (tick_appended interval s started results history now))"
    by (rule tick_appended_clears)
next
  assume "\<not> pollerRunning s"
  then show "\<not> pollerRunning (fst (tick interval s w))" by (rule tick_clears)
qed

lemmas poller_defs = tick_def tick_enter_def tick_checked_def tick_appended_def idle_poller_def

theorem tick_single_flight_witness:
  "\<not> pollerRunning idle_poller \<and>
   pollerRunning (fst (tick_enter idle_poller 1000)) \<and>
   tick_enter (fst (tick_enter idle_poller 1000)) 61000 =
     (\<lparr>pollerRunning = True, lastPingStartedAt = Some 1000\<rparr>, [Log_skip (Some 60000)], None) \<and>
   \<not> pollerRunning (fst (tick_checked (fst (tick_enter idle_poller 1000)) (Inl None))) \<and>
   \<not> pollerRunning (fst (tick 60000 idle_poller
        \<lparr>enteredAt = 1000, checksOutcome = Inr [], historyOutcome = Inl None, doneAt = 1500\<rparr>))"
proof -
  have i: "\<not> pollerRunning idle_poller" by (simp add: idle_poller_def)
  have f: "fst (tick_enter idle_poller 1000) =
      \<lparr>pollerRunning = True, lastPingStartedAt = Some 1000\<rparr>"
    by (simp add: poller_defs)
  have n: "snd (snd (tick_checked (fst (tick_enter idle_poller 1000)) (Inl None))) = None"
    by (simp add: poller_defs)
  have r: "pollerRunning \<lparr>pollerRunning = True, lastPingStartedAt = Some 1000\<rparr>" by simp
  note a = tick_single_flight [where s = idle_poller and ?t0.0 = 1000 and ?t1.0 = 61000
      and interval = 60000 and w = "\<lparr>enteredAt = 1000, checksOutcome = Inr [],
        historyOutcome = Inl None, doneAt = 1500\<rparr>"]
  note b = tick_single_flight [where s = "fst (tick_enter idle_poller 1000)"
      and outcome = "Inl None" and now = 61000]
  from a i f have 1: "pollerRunning (fst (tick_enter idle_poller 1000)) \<and>
   tick_enter (fst (tick_enter idle_poller 1000)) 61000 =
     (\<lparr>pollerRunning = True, lastPingStartedAt = Some 1000\<rparr>, [Log_skip (Some 60000)], None) \<and>
   \<not> pollerRunning (fst (tick 60000 idle_poller
        \<lparr>enteredAt = 1000, checksOutcome = Inr [], historyOutcome = Inl None, doneAt = 1500\<rparr>))"
    by simp
  from b n have 2:
    "\<not> pollerRunning (fst (tick_checked (fst (tick_enter idle_poller 1000)) (Inl None)))"
    by blast
  from 1 2 i show ?thesis by blast
qed

end
